theory Spec2Isabelle
  imports Complex_Main
begin

section \<open>Vectors and Python errors\<close>

text \<open>
  \<open>obj2png.py\<close> drives Blender through \<open>bpy\<close>. Coordinates, angles and scale factors
  are real numbers here (the source computes them in floating point). A
  \<open>mathutils.Vector\<close> of three components is a triple.
\<close>

type_synonym vec3 = "real \<times> real \<times> real"

definition vadd :: "vec3 \<Rightarrow> vec3 \<Rightarrow> vec3" where
  "vadd a b = (case a of (ax, ay, az) \<Rightarrow> case b of (bx, by, bz) \<Rightarrow> (ax + bx, ay + by, az + bz))"

definition vsub :: "vec3 \<Rightarrow> vec3 \<Rightarrow> vec3" where
  "vsub a b = (case a of (ax, ay, az) \<Rightarrow> case b of (bx, by, bz) \<Rightarrow> (ax - bx, ay - by, az - bz))"

definition vneg :: "vec3 \<Rightarrow> vec3" where
  "vneg a = (case a of (ax, ay, az) \<Rightarrow> (- ax, - ay, - az))"

definition vdiv :: "vec3 \<Rightarrow> real \<Rightarrow> vec3" where
  "vdiv a k = (case a of (ax, ay, az) \<Rightarrow> (ax / k, ay / k, az / k))"

definition vmul :: "vec3 \<Rightarrow> vec3 \<Rightarrow> vec3" where
  \<comment> \<open>componentwise product: the effect of an object's scale on a local coordinate\<close>
  "vmul s v = (case s of (sx, sy, sz) \<Rightarrow> case v of (x, y, z) \<Rightarrow> (sx * x, sy * y, sz * z))"

definition max3 :: "vec3 \<Rightarrow> real" where
  \<comment> \<open>Python's \<open>max(v)\<close> on a vector of three components\<close>
  "max3 v = (case v of (x, y, z) \<Rightarrow> max x (max y z))"

text \<open>
  The exceptions the modelled code can meet, all subclasses of Python's \<open>Exception\<close>;
  each carries the text that \<open>str(e)\<close> gives.
\<close>

datatype py_exception =
    ZeroDivisionError string
  | IndexError string
  | OSError string
  | RuntimeError string
  | ValueError string

fun str_exc :: "py_exception \<Rightarrow> string" where
  "str_exc (ZeroDivisionError m) = m"
| "str_exc (IndexError m) = m"
| "str_exc (OSError m) = m"
| "str_exc (RuntimeError m) = m"
| "str_exc (ValueError m) = m"

text \<open>
  Numbers are real numbers, so rounding is not modelled, but the range of the floating
  point formats is, where the normaliser depends on it: a Python float or a float32 of
  the engine is a finite number, an infinity or a NaN. The result of a float32 operation
  whose exact value lies beyond the largest float32 is an infinity.
\<close>

datatype pyfloat = Finite real | PosInf | NegInf | NaN

definition float32_max :: real where
  \<comment> \<open>the largest float32, about \<open>3.4028235e38\<close>\<close>
  "float32_max = 2 ^ 128 - 2 ^ 104"

definition float32 :: "real \<Rightarrow> pyfloat" where
  "float32 x = (if float32_max < x then PosInf
                else if x < - float32_max then NegInf
                else Finite x)"

fun float32_mul :: "real \<Rightarrow> pyfloat \<Rightarrow> pyfloat" where
  \<comment> \<open>the float32 product of a finite number and a float32\<close>
  "float32_mul a (Finite x) = float32 (a * x)"
| "float32_mul a PosInf = (if a = 0 then NaN else if 0 < a then PosInf else NegInf)"
| "float32_mul a NegInf = (if a = 0 then NaN else if 0 < a then NegInf else PosInf)"
| "float32_mul a NaN = NaN"

fun py_gt :: "pyfloat \<Rightarrow> pyfloat \<Rightarrow> bool" where
  \<comment> \<open>Python's \<open>a > b\<close> on floats; every comparison with a NaN is false\<close>
  "py_gt (Finite x) (Finite y) = (y < x)"
| "py_gt (Finite x) NegInf = True"
| "py_gt PosInf (Finite y) = True"
| "py_gt PosInf NegInf = True"
| "py_gt a b = False"

definition py_max3 :: "pyfloat \<times> pyfloat \<times> pyfloat \<Rightarrow> pyfloat" where
  \<comment> \<open>Python's \<open>max(v)\<close> on the three components of a vector: the first component,
      replaced by each later one that is greater\<close>
  "py_max3 v =
     (case v of (a, b, c) \<Rightarrow>
        (let m = a;
             m = (if py_gt b m then b else m);
             m = (if py_gt c m then c else m)
         in m))"

fun truediv :: "real \<Rightarrow> pyfloat \<Rightarrow> py_exception + pyfloat" where
  \<comment> \<open>Python's \<open>a / b\<close> for a finite \<open>a\<close>. A quotient beyond the range of a double
      would be an infinity; it is kept as the number, which \<open>float32_store\<close> clamps to
      the same value.\<close>
  "truediv a (Finite b) =
     (if b = 0 then Inl (ZeroDivisionError ''float division by zero'') else Inr (Finite (a / b)))"
| "truediv a PosInf = Inr (Finite 0)"
| "truediv a NegInf = Inr (Finite 0)"
| "truediv a NaN = Inr NaN"

definition float32_store :: "pyfloat \<Rightarrow> real" where
  \<comment> \<open>what a float32 property of the engine holds after a Python float is assigned to
      it: the value clamped to the float32 range. A NaN would be stored as it is; the real
      numbers have no counterpart of it, and the normaliser never stores one
      (\<open>reset_model_transform_shape\<close> below).\<close>
  "float32_store x =
     (case x of
        Finite r \<Rightarrow> max (- float32_max) (min float32_max r)
      | PosInf \<Rightarrow> float32_max
      | NegInf \<Rightarrow> - float32_max
      | NaN \<Rightarrow> undefined)"

section \<open>The engine's objects\<close>

text \<open>
  A mesh object of the engine: its transform (\<open>location\<close>, \<open>rotation_euler\<close>, \<open>scale\<close>)
  and the vertices of its mesh data in local coordinates.
\<close>

record object3d =
  location :: vec3
  rotation_euler :: vec3
  scale :: vec3
  verts :: "vec3 list"

fun list_min :: "real list \<Rightarrow> real" where
  "list_min [] = 0"
| "list_min (x # xs) = fold min xs x"

fun list_max :: "real list \<Rightarrow> real" where
  "list_max [] = 0"
| "list_max (x # xs) = fold max xs x"

definition xs_of :: "vec3 list \<Rightarrow> real list" where
  "xs_of vs = map fst vs"

definition ys_of :: "vec3 list \<Rightarrow> real list" where
  "ys_of vs = map (\<lambda>v. fst (snd v)) vs"

definition zs_of :: "vec3 list \<Rightarrow> real list" where
  "zs_of vs = map (\<lambda>v. snd (snd v)) vs"

definition bbox_min :: "vec3 list \<Rightarrow> vec3" where
  \<comment> \<open>\<open>Vector(map(min, zip(*points)))\<close>: the least coordinate on each axis. A mesh
      without vertices is outside the model (the value \<open>0\<close> stands in for it).\<close>
  "bbox_min vs = (list_min (xs_of vs), list_min (ys_of vs), list_min (zs_of vs))"

definition bbox_max :: "vec3 list \<Rightarrow> vec3" where
  "bbox_max vs = (list_max (xs_of vs), list_max (ys_of vs), list_max (zs_of vs))"

definition bound_box :: "object3d \<Rightarrow> vec3 list" where
  \<comment> \<open>\<open>obj.bound_box\<close>: the eight corners of the axis-aligned box around the mesh
      data, in local coordinates\<close>
  "bound_box obj =
     (case bbox_min (verts obj) of (x0, y0, z0) \<Rightarrow>
      case bbox_max (verts obj) of (x1, y1, z1) \<Rightarrow>
        [(x0, y0, z0), (x0, y0, z1), (x0, y1, z1), (x0, y1, z0),
         (x1, y0, z0), (x1, y0, z1), (x1, y1, z1), (x1, y1, z0)])"

definition rot_x :: "real \<Rightarrow> vec3 \<Rightarrow> vec3" where
  "rot_x a v = (case v of (x, y, z) \<Rightarrow> (x, y * cos a - z * sin a, y * sin a + z * cos a))"

definition rot_y :: "real \<Rightarrow> vec3 \<Rightarrow> vec3" where
  "rot_y a v = (case v of (x, y, z) \<Rightarrow> (x * cos a + z * sin a, y, z * cos a - x * sin a))"

definition rot_z :: "real \<Rightarrow> vec3 \<Rightarrow> vec3" where
  "rot_z a v = (case v of (x, y, z) \<Rightarrow> (x * cos a - y * sin a, x * sin a + y * cos a, z))"

definition euler_rotate :: "vec3 \<Rightarrow> vec3 \<Rightarrow> vec3" where
  \<comment> \<open>an XYZ Euler rotation: about X, then about Y, then about Z\<close>
  "euler_rotate e v = (case e of (a, b, c) \<Rightarrow> rot_z c (rot_y b (rot_x a v)))"

definition transform_point :: "vec3 \<Rightarrow> vec3 \<Rightarrow> vec3 \<Rightarrow> vec3 \<Rightarrow> vec3" where
  "transform_point loc rot sc v = vadd loc (euler_rotate rot (vmul sc v))"

definition matrix_world :: "object3d \<Rightarrow> vec3 \<Rightarrow> vec3" where
  \<comment> \<open>\<open>obj.matrix_world @ v\<close>: scale, then rotate, then translate\<close>
  "matrix_world obj v = transform_point (location obj) (rotation_euler obj) (scale obj) v"

definition transform_apply :: "bool \<Rightarrow> bool \<Rightarrow> bool \<Rightarrow> object3d \<Rightarrow> object3d" where
  \<comment> \<open>\<open>bpy.ops.object.transform_apply(location, rotation, scale)\<close>: the selected
      parts of the transform are applied to the mesh data and reset on the object\<close>
  "transform_apply loc rot sc obj =
     (let l = (if loc then location obj else (0, 0, 0));
          r = (if rot then rotation_euler obj else (0, 0, 0));
          s = (if sc then scale obj else (1, 1, 1))
      in obj\<lparr> location := (if loc then (0, 0, 0) else location obj),
              rotation_euler := (if rot then (0, 0, 0) else rotation_euler obj),
              scale := (if sc then (1, 1, 1) else scale obj),
              verts := map (transform_point l r s) (verts obj) \<rparr>)"

definition bounds_center :: "vec3 list \<Rightarrow> vec3" where
  "bounds_center vs = vdiv (vadd (bbox_max vs) (bbox_min vs)) 2"

definition origin_set_bounds :: "object3d \<Rightarrow> object3d" where
  \<comment> \<open>\<open>bpy.ops.object.origin_set(type='ORIGIN_GEOMETRY', center='BOUNDS')\<close>: the
      origin moves to the centre of the bounding box; the mesh data is shifted the other
      way, so the mesh stays where it is in the world\<close>
  "origin_set_bounds obj =
     (let c = bounds_center (verts obj)
      in obj\<lparr> location := matrix_world obj c,
              verts := map (\<lambda>v. vsub v c) (verts obj) \<rparr>)"

definition dimensions :: "object3d \<Rightarrow> pyfloat \<times> pyfloat \<times> pyfloat" where
  \<comment> \<open>\<open>obj.dimensions\<close>: the size of the bounding box, a float32 difference, times the
      absolute scale\<close>
  "dimensions obj =
     (case scale obj of (sx, sy, sz) \<Rightarrow>
      case bbox_max (verts obj) of (x1, y1, z1) \<Rightarrow>
      case bbox_min (verts obj) of (x0, y0, z0) \<Rightarrow>
        (float32_mul \<bar>sx\<bar> (float32 (x1 - x0)),
         float32_mul \<bar>sy\<bar> (float32 (y1 - y0)),
         float32_mul \<bar>sz\<bar> (float32 (z1 - z0))))"

text \<open>
  Two notions the properties below are stated in: the vertices of an object in world
  coordinates, and the size of the axis-aligned box around a list of points.
\<close>

definition world_verts :: "object3d \<Rightarrow> vec3 list" where
  "world_verts obj = map (matrix_world obj) (verts obj)"

definition extent :: "vec3 list \<Rightarrow> vec3" where
  "extent vs = vsub (bbox_max vs) (bbox_min vs)"

definition world_bbox_extent :: "object3d \<Rightarrow> vec3" where
  \<comment> \<open>the size of the box around the corners of \<open>bound_box\<close> taken to the world, which
      is what \<open>_auto_adjust_camera\<close> measures\<close>
  "world_bbox_extent obj = extent (map (matrix_world obj) (bound_box obj))"

section \<open>ThreeViewRenderer: normalising the model\<close>

definition reset_model_transform :: "object3d \<Rightarrow> py_exception + object3d" where
  "reset_model_transform obj0 =
     (let obj = transform_apply True True True obj0;
          obj = origin_set_bounds obj;
          obj = obj\<lparr> location := (0, 0, 0) \<rparr>;
          obj = obj\<lparr> rotation_euler := (0, 0, 0) \<rparr>;
          max_dim = py_max3 (dimensions obj)
      in if max_dim \<noteq> Finite 0
         then (case truediv 2 max_dim of
                 Inl e \<Rightarrow> Inl e
               | Inr scale_factor \<Rightarrow>
                   Inr (transform_apply False False True
                          (obj\<lparr> scale := (float32_store scale_factor,
                                            float32_store scale_factor,
                                            float32_store scale_factor) \<rparr>)))
         else Inr (transform_apply False False True obj))"

text \<open>
  The renderer together with the part of the engine's scene that its methods read and
  write: the constructor's arguments, the imported object, the camera's pose and
  orthographic scale, and the scene's output path.
\<close>

record renderer =
  obj_path :: string
  output_dir :: string
  resolution :: int
  background_color :: vec3
  model :: object3d
  camera_location :: vec3
  camera_rotation :: vec3
  ortho_scale :: real
  filepath :: string

definition auto_adjust_camera :: "renderer \<Rightarrow> object3d \<Rightarrow> renderer \<times> object3d" where
  "auto_adjust_camera self obj =
     (let bbox_corners = map (matrix_world obj) (bound_box obj);
          bb_min = bbox_min bbox_corners;
          bb_max = bbox_max bbox_corners;
          dims = vsub bb_max bb_min;
          max_dim = max3 dims;
          self = self\<lparr> ortho_scale := max_dim * (12 / 10) \<rparr>;
          center = vdiv (vadd bb_max bb_min) 2
      in (self, obj\<lparr> location := vneg center \<rparr>))"

section \<open>Paths, files and the world outside the program\<close>

text \<open>
  Strings are byte strings (UTF-8). The functions of \<open>os.path\<close> are those of a POSIX
  system.
\<close>

definition path_join :: "string \<Rightarrow> string \<Rightarrow> string" where
  \<comment> \<open>\<open>os.path.join(a, b)\<close>\<close>
  "path_join a b =
     (if b \<noteq> [] \<and> hd b = CHR ''/'' then b
      else if a = [] \<or> last a = CHR ''/'' then a @ b
      else a @ ''/'' @ b)"

definition rfind :: "char \<Rightarrow> string \<Rightarrow> int" where
  \<comment> \<open>\<open>p.rfind(c)\<close>: the last index of \<open>c\<close>, or \<open>-1\<close>\<close>
  "rfind c p =
     (if c \<in> set p then int (length p) - 1 - int (length (takeWhile (\<lambda>x. x \<noteq> c) (rev p)))
      else - 1)"

definition basename :: "string \<Rightarrow> string" where
  \<comment> \<open>\<open>os.path.basename(p)\<close>: what follows the last slash\<close>
  "basename p = drop (nat (rfind (CHR ''/'') p + 1)) p"

definition splitext :: "string \<Rightarrow> string \<times> string" where
  \<comment> \<open>\<open>os.path.splitext(p)\<close>: the extension starts at the last dot of the last
      component, leading dots of that component apart\<close>
  "splitext p =
     (let sepIndex = rfind (CHR ''/'') p;
          dotIndex = rfind (CHR ''.'') p
      in if dotIndex > sepIndex \<and>
            list_ex (\<lambda>c. c \<noteq> CHR ''.'')
              (take (nat (dotIndex - (sepIndex + 1))) (drop (nat (sepIndex + 1)) p))
         then (take (nat dotIndex) p, drop (nat dotIndex) p)
         else (p, []))"

definition str_digit :: "nat \<Rightarrow> char" where
  "str_digit d = ''0123456789'' ! d"

fun str_nat :: "nat \<Rightarrow> string" where
  "str_nat n = (if n < 10 then [str_digit n] else str_nat (n div 10) @ [str_digit (n mod 10)])"

declare str_nat.simps [simp del]

definition str_int :: "int \<Rightarrow> string" where
  \<comment> \<open>\<open>str(i)\<close>, as an f-string formats an integer\<close>
  "str_int i = (if i < 0 then CHR ''-'' # str_nat (nat (- i)) else str_nat (nat i))"

text \<open>
  The file system maps a path to what is there. A rendered image is identified by the
  state of the renderer and scene it was rendered from.
\<close>

datatype node = Dir | File renderer

type_synonym filesystem = "string \<Rightarrow> node option"

definition makedirs :: "bool \<Rightarrow> string \<Rightarrow> filesystem \<Rightarrow> py_exception + filesystem" where
  \<comment> \<open>\<open>os.makedirs(name, exist_ok=...)\<close>; intermediate directories are not tracked\<close>
  "makedirs exist_ok name files =
     (case files name of
        None \<Rightarrow> Inr (files(name \<mapsto> Dir))
      | Some Dir \<Rightarrow>
          if exist_ok then Inr files else Inl (OSError (''[Errno 17] File exists: '' @ name))
      | Some (File img) \<Rightarrow> Inl (OSError (''[Errno 17] File exists: '' @ name)))"

text \<open>
  What the program cannot decide by itself: which files \<open>glob\<close> finds, how many
  processors there are, and whether a call into the engine raises.
\<close>

record environment =
  glob_recursive :: "string \<Rightarrow> string list"
  cpu_count :: int
  configure_engine :: "py_exception option"
  import_scene_obj :: "string \<Rightarrow> py_exception + object3d list"
  decorate_scene :: "py_exception option"
  render_error :: "renderer \<Rightarrow> py_exception option"

text \<open>
  The state shared by all jobs: the file system, the renders the engine has completed
  (view name and scene, oldest first) and the arguments of the \<open>print\<close> calls.
\<close>

record world =
  fs :: filesystem
  rendered :: "(string \<times> renderer) list"
  stdout :: "string list"

definition print :: "string \<Rightarrow> world \<Rightarrow> world" where
  "print line w = w\<lparr> stdout := stdout w @ [line] \<rparr>"

section \<open>ThreeViewRenderer: scene and views\<close>

definition setup_scene ::
  "environment \<Rightarrow> string \<Rightarrow> string \<Rightarrow> int \<Rightarrow> vec3 \<Rightarrow> py_exception + renderer" where
  \<comment> \<open>\<open>__init__\<close> and \<open>_setup_scene\<close>. The settings of the engine, the world, the
      material, the light and the camera object are engine state that nothing modelled
      reads; of these calls only the possible failure is kept. The camera starts with the
      engine's defaults, which are overwritten before the first render.\<close>
  "setup_scene env obj_path' output_dir' resolution' background_color' =
     (case configure_engine env of
        Some e \<Rightarrow> Inl e
      | None \<Rightarrow>
     (case import_scene_obj env obj_path' of
        Inl e \<Rightarrow> Inl e
      | Inr selected_objects \<Rightarrow>
     (case selected_objects of
        [] \<Rightarrow> Inl (IndexError ''list index out of range'')
      | obj0 # others \<Rightarrow>
     (case reset_model_transform obj0 of
        Inl e \<Rightarrow> Inl e
      | Inr obj \<Rightarrow>
     (case decorate_scene env of
        Some e \<Rightarrow> Inl e
      | None \<Rightarrow>
         (let self = \<lparr> obj_path = obj_path', output_dir = output_dir',
                       resolution = resolution', background_color = background_color',
                       model = obj, camera_location = (0, 0, 0),
                       camera_rotation = (0, 0, 0), ortho_scale = 6, filepath = ''/tmp/'' \<rparr>
          in case auto_adjust_camera self obj of
               (self, obj) \<Rightarrow> Inr (self\<lparr> model := obj \<rparr>)))))))"

definition set_camera_position :: "vec3 \<Rightarrow> vec3 \<Rightarrow> renderer \<Rightarrow> renderer" where
  "set_camera_position position rotation self =
     self\<lparr> camera_location := position, camera_rotation := rotation \<rparr>"

definition rendered_prefix :: string where
  "rendered_prefix = [CHR 0xE5, CHR 0xB7, CHR 0xB2, CHR 0xE6, CHR 0xB8, CHR 0xB2, CHR 0xE6,
     CHR 0x9F, CHR 0x93, CHR 0x20]"

definition rendered_infix :: string where
  "rendered_infix = [CHR 0x20, CHR 0xE8, CHR 0xA7, CHR 0x86, CHR 0xE5, CHR 0x9B, CHR 0xBE,
     CHR 0x3A, CHR 0x20]"

definition render_view ::
  "environment \<Rightarrow> string \<Rightarrow> vec3 \<Rightarrow> vec3 \<Rightarrow> renderer \<Rightarrow> world
     \<Rightarrow> (py_exception + renderer) \<times> world" where
  "render_view env view_name position rotation self w =
     (let self = set_camera_position position rotation self;
          output_path = path_join (output_dir self) (view_name @ ''.png'');
          self = self\<lparr> filepath := output_path \<rparr>
      in case render_error env self of
           Some e \<Rightarrow> (Inl e, w)
         | None \<Rightarrow>
             (let w = w\<lparr> fs := (fs w)(output_path \<mapsto> File self),
                         rendered := rendered w @ [(view_name, self)] \<rparr>
              in (Inr self, print (rendered_prefix @ view_name @ rendered_infix @ output_path) w)))"

definition radians :: "real \<Rightarrow> real" where
  \<comment> \<open>\<open>math.radians\<close>\<close>
  "radians d = d * pi / 180"

definition orthographic_views :: "(string \<times> vec3 \<times> vec3) list" where
  "orthographic_views =
     [(''front'', (0, - 15, 0), (radians 90, 0, radians 180)),
      (''back'', (0, 15, 0), (radians 90, 0, 0)),
      (''right'', (15, 0, 0), (radians 90, 0, radians 90)),
      (''left'', (- 15, 0, 0), (radians 90, 0, radians (- 90))),
      (''top'', (0, 0, 15), (0, 0, radians 180)),
      (''bottom'', (0, 0, - 15), (radians 180, 0, radians 180))]"

definition iso_distance :: real where
  "iso_distance = 15"

definition iso_angle :: real where
  "iso_angle = radians (54736 / 1000)"

definition iso_views :: "(string \<times> vec3 \<times> vec3) list" where
  "iso_views =
     [(''standard'', (iso_distance, - iso_distance, iso_distance), (iso_angle, 0, radians 45)),
      (''iso_back'', (- iso_distance, iso_distance, iso_distance), (iso_angle, 0, radians 225)),
      (''iso_left'', (- iso_distance, - iso_distance, iso_distance), (iso_angle, 0, radians 315)),
      (''iso_right'', (iso_distance, iso_distance, iso_distance), (iso_angle, 0, radians 135))]"

fun render_views ::
  "environment \<Rightarrow> (string \<times> vec3 \<times> vec3) list \<Rightarrow> renderer \<Rightarrow> world
     \<Rightarrow> (py_exception + renderer) \<times> world" where
  \<comment> \<open>\<open>for view_name, (position, rotation) in views.items(): self.render_view(...)\<close>;
      a dictionary is iterated in the order of its literal\<close>
  "render_views env [] self w = (Inr self, w)"
| "render_views env ((view_name, position, rotation) # views) self w =
     (case render_view env view_name position rotation self w of
        (Inl e, w) \<Rightarrow> (Inl e, w)
      | (Inr self, w) \<Rightarrow> render_views env views self w)"

definition ortho_header :: string where
  "ortho_header = [CHR 0x0A, CHR 0xE6, CHR 0xAD, CHR 0xA3, CHR 0xE5, CHR 0x9C, CHR 0xA8,
     CHR 0xE6, CHR 0xB8, CHR 0xB2, CHR 0xE6, CHR 0x9F, CHR 0x93, CHR 0xE6, CHR 0xAD, CHR 0xA3,
     CHR 0xE4, CHR 0xBA, CHR 0xA4, CHR 0xE8, CHR 0xA7, CHR 0x86, CHR 0xE5, CHR 0x9B, CHR 0xBE,
     CHR 0x2E, CHR 0x2E, CHR 0x2E]"

definition iso_header :: string where
  "iso_header = [CHR 0x0A, CHR 0xE6, CHR 0xAD, CHR 0xA3, CHR 0xE5, CHR 0x9C, CHR 0xA8,
     CHR 0xE6, CHR 0xB8, CHR 0xB2, CHR 0xE6, CHR 0x9F, CHR 0x93, CHR 0xE7, CHR 0xAD, CHR 0x89,
     CHR 0xE8, CHR 0xBD, CHR 0xB4, CHR 0xE6, CHR 0xB5, CHR 0x8B, CHR 0xE8, CHR 0xA7, CHR 0x86,
     CHR 0xE5, CHR 0x9B, CHR 0xBE, CHR 0x2E, CHR 0x2E, CHR 0x2E]"

definition render_all_views ::
  "environment \<Rightarrow> renderer \<Rightarrow> world \<Rightarrow> (py_exception + renderer) \<times> world" where
  "render_all_views env self w =
     (case render_views env orthographic_views self (print ortho_header w) of
        (Inl e, w) \<Rightarrow> (Inl e, w)
      | (Inr self, w) \<Rightarrow> render_views env iso_views self (print iso_header w))"

section \<open>Jobs and the batch\<close>

definition success_prefix :: string where
  "success_prefix = [CHR 0xE6, CHR 0x88, CHR 0x90, CHR 0xE5, CHR 0x8A, CHR 0x9F, CHR 0xE6,
     CHR 0xB8, CHR 0xB2, CHR 0xE6, CHR 0x9F, CHR 0x93, CHR 0x3A, CHR 0x20]"

definition failure_prefix :: string where
  "failure_prefix = [CHR 0xE6, CHR 0xB8, CHR 0xB2, CHR 0xE6, CHR 0x9F, CHR 0x93, CHR 0xE5,
     CHR 0xA4, CHR 0xB1, CHR 0xE8, CHR 0xB4, CHR 0xA5, CHR 0x20]"

definition model_output_dir :: "string \<Rightarrow> string \<Rightarrow> string" where
  \<comment> \<open>\<open>os.path.join(output_dir, os.path.splitext(os.path.basename(obj_path))[0])\<close>\<close>
  "model_output_dir output_dir' obj_path' =
     path_join output_dir' (fst (splitext (basename obj_path')))"

definition process_single_model_try ::
  "environment \<Rightarrow> string \<times> string \<times> int \<Rightarrow> world \<Rightarrow> (py_exception + unit) \<times> world" where
  \<comment> \<open>the body of the \<open>try\<close> block, up to the \<open>return\<close>\<close>
  "process_single_model_try env args w =
     (case args of (obj_path', output_dir', resolution') \<Rightarrow>
      (let dir = model_output_dir output_dir' obj_path'
       in case makedirs True dir (fs w) of
            Inl e \<Rightarrow> (Inl e, w)
          | Inr files \<Rightarrow>
              (let w = w\<lparr> fs := files \<rparr>
               in case setup_scene env obj_path' dir resolution' (1, 1, 1) of
                    Inl e \<Rightarrow> (Inl e, w)
                  | Inr renderer \<Rightarrow>
                      (case render_all_views env renderer w of
                         (Inl e, w) \<Rightarrow> (Inl e, w)
                       | (Inr renderer, w) \<Rightarrow> (Inr (), w)))))"

definition result_line :: "string \<Rightarrow> py_exception + unit \<Rightarrow> string" where
  "result_line obj_path' outcome =
     (case outcome of
        Inr u \<Rightarrow> success_prefix @ obj_path'
      | Inl e \<Rightarrow> failure_prefix @ obj_path' @ '': '' @ str_exc e)"

definition process_single_model ::
  "environment \<Rightarrow> string \<times> string \<times> int \<Rightarrow> world \<Rightarrow> string \<times> world" where
  \<comment> \<open>\<open>except Exception\<close> turns every failure of the body into a returned string\<close>
  "process_single_model env args w =
     (case process_single_model_try env args w of
        (outcome, w) \<Rightarrow> (result_line (fst args) outcome, w))"

fun pool_map :: "('a \<Rightarrow> world \<Rightarrow> 'b \<times> world) \<Rightarrow> 'a list \<Rightarrow> world \<Rightarrow> 'b list \<times> world" where
  \<comment> \<open>\<open>pool.map(f, args)\<close>: one result per argument, in the order of the arguments.
      The jobs share the file system only; their effects on it are taken in the order of
      the arguments.\<close>
  "pool_map f [] w = ([], w)"
| "pool_map f (a # as) w =
     (case f a w of (r, w) \<Rightarrow>
      case pool_map f as w of (rs, w) \<Rightarrow> (r # rs, w))"

definition not_found_prefix :: string where
  "not_found_prefix = [CHR 0xE5, CHR 0x9C, CHR 0xA8, CHR 0x20]"

definition not_found_suffix :: string where
  "not_found_suffix = [CHR 0x20, CHR 0xE4, CHR 0xB8, CHR 0xAD, CHR 0xE6, CHR 0x9C, CHR 0xAA,
     CHR 0xE6, CHR 0x89, CHR 0xBE, CHR 0xE5, CHR 0x88, CHR 0xB0, CHR 0x4F, CHR 0x42, CHR 0x4A,
     CHR 0xE6, CHR 0x96, CHR 0x87, CHR 0xE4, CHR 0xBB, CHR 0xB6]"

definition start_prefix :: string where
  "start_prefix = [CHR 0xE5, CHR 0xBC, CHR 0x80, CHR 0xE5, CHR 0xA7, CHR 0x8B, CHR 0xE5,
     CHR 0xB9, CHR 0xB6, CHR 0xE8, CHR 0xA1, CHR 0x8C, CHR 0xE6, CHR 0xB8, CHR 0xB2, CHR 0xE6,
     CHR 0x9F, CHR 0x93, CHR 0xEF, CHR 0xBC, CHR 0x8C, CHR 0xE4, CHR 0xBD, CHR 0xBF, CHR 0xE7,
     CHR 0x94, CHR 0xA8, CHR 0x20]"

definition start_suffix :: string where
  "start_suffix = [CHR 0x20, CHR 0xE4, CHR 0xB8, CHR 0xAA, CHR 0xE8, CHR 0xBF, CHR 0x9B,
     CHR 0xE7, CHR 0xA8, CHR 0x8B, CHR 0x2E, CHR 0x2E, CHR 0x2E]"

fun print_all :: "string list \<Rightarrow> world \<Rightarrow> world" where
  \<comment> \<open>\<open>for result in results: print(result)\<close>\<close>
  "print_all [] w = w"
| "print_all (result # results) w = print_all results (print result w)"

definition batch_render ::
  "environment \<Rightarrow> string \<Rightarrow> string \<Rightarrow> int \<Rightarrow> int option \<Rightarrow> world
     \<Rightarrow> (py_exception + string list) \<times> world" where
  \<comment> \<open>The value returned with the world is the list \<open>results\<close> (empty when no file is
      found), or the exception that \<open>Pool\<close> raises on a worker count below one.\<close>
  "batch_render env input_dir output_dir' resolution' num_processes w =
     (let obj_files = glob_recursive env (path_join input_dir ''**/*.obj'')
      in if obj_files = []
         then (Inr [], print (not_found_prefix @ input_dir @ not_found_suffix) w)
         else
           (let num_processes = (case num_processes of None \<Rightarrow> cpu_count env | Some n \<Rightarrow> n);
                render_args = map (\<lambda>obj_file. (obj_file, output_dir', resolution')) obj_files;
                w = print (start_prefix @ str_int num_processes @ start_suffix) w
            in if num_processes < 1
               then (Inl (ValueError ''Number of processes must be at least 1''), w)
               else (case pool_map (process_single_model env) render_args w of
                       (results, w) \<Rightarrow> (Inr results, print_all results w))))"




text \<open>How the properties read a result line and the log of renders.\<close>

definition starts_with :: "string \<Rightarrow> string \<Rightarrow> bool" where
  "starts_with pre line = (take (length pre) line = pre)"



definition job_outcomes ::
  "environment \<Rightarrow> (string \<times> string \<times> int) list \<Rightarrow> world \<Rightarrow> (py_exception + unit) list" where
  \<comment> \<open>what each job's \<open>try\<close> block came to, in the order of the arguments\<close>
  "job_outcomes env render_args w = fst (pool_map (process_single_model_try env) render_args w)"

definition batch_outcomes ::
  "environment \<Rightarrow> string \<Rightarrow> string \<Rightarrow> int \<Rightarrow> int option \<Rightarrow> world
     \<Rightarrow> (py_exception + unit) list" where
  \<comment> \<open>what the jobs of a batch came to: the outcomes of the files found, run from the
      world in which the pool starts\<close>
  "batch_outcomes env input_dir output_dir' resolution' num_processes w =
     (let obj_files = glob_recursive env (path_join input_dir ''**/*.obj'');
          num_processes = (case num_processes of None \<Rightarrow> cpu_count env | Some n \<Rightarrow> n)
      in job_outcomes env (map (\<lambda>obj_file. (obj_file, output_dir', resolution')) obj_files)
           (print (start_prefix @ str_int num_processes @ start_suffix) w))"

definition new_renders :: "world \<Rightarrow> world \<Rightarrow> (string \<times> renderer) list" where
  \<comment> \<open>the renders completed between an earlier and a later world\<close>
  "new_renders w w' = drop (length (rendered w)) (rendered w')"

definition pose_of :: "string \<times> renderer \<Rightarrow> string \<times> vec3 \<times> vec3" where
  "pose_of r = (fst r, camera_location (snd r), camera_rotation (snd r))"

definition view_file :: "string \<Rightarrow> string \<Rightarrow> string" where
  \<comment> \<open>the path at which a view is written into a directory\<close>
  "view_file dir view_name = path_join dir (view_name @ ''.png'')"

definition normalizer_scale :: "real \<Rightarrow> real" where
  \<comment> \<open>the factor by which the normaliser scales a mesh of largest extent \<open>m\<close>: \<open>2 / m\<close>
      within the float32 range, 0 when the extent overflows, the largest float32 when the
      quotient does\<close>
  "normalizer_scale m = (if float32_max < m then 0 else min float32_max (2 / m))"

definition camera_forward :: "vec3 \<Rightarrow> vec3" where
  \<comment> \<open>the direction in which a camera with this rotation looks: the engine's cameras
      look along their local \<open>-Z\<close> axis\<close>
  "camera_forward rotation = euler_rotate rotation (0, 0, - 1)"

definition pitch_of :: "string \<times> vec3 \<times> vec3 \<Rightarrow> real" where
  \<comment> \<open>the first Euler angle of a view's rotation\<close>
  "pitch_of v = fst (snd (snd v))"

definition view_names :: "string list" where
  "view_names = [''front'', ''back'', ''right'', ''left'', ''top'', ''bottom'',
                 ''standard'', ''iso_back'', ''iso_left'', ''iso_right'']"

section \<open>Concrete inputs\<close>

definition box_object :: object3d where
  \<comment> \<open>a mesh of two vertices spanning a box of 1 by 2 by 4, away from the origin\<close>
  "box_object = \<lparr> location = (1, 1, 1), rotation_euler = (0, 0, 0), scale = (1, 1, 1),
                   verts = [(0, 0, 0), (1, 2, 4)] \<rparr>"

definition normalized_box :: object3d where
  \<comment> \<open>what the normaliser makes of \<open>box_object\<close>\<close>
  "normalized_box = \<lparr> location = (0, 0, 0), rotation_euler = (0, 0, 0), scale = (1, 1, 1),
                       verts = [(- (1 / 4), - (1 / 2), - 1), (1 / 4, 1 / 2, 1)] \<rparr>"

definition big_box_object :: object3d where
  \<comment> \<open>the same mesh at twice the size\<close>
  "big_box_object = \<lparr> location = (0, 0, 0), rotation_euler = (0, 0, 0), scale = (2, 2, 2),
                       verts = [(- (1 / 4), - (1 / 2), - 1), (1 / 4, 1 / 2, 1)] \<rparr>"

definition huge_object :: object3d where
  \<comment> \<open>a mesh of two vertices within the float32 range whose distance is beyond it\<close>
  "huge_object = \<lparr> location = (0, 0, 0), rotation_euler = (0, 0, 0), scale = (1, 1, 1),
                    verts = [(- (3 * 10 ^ 38), 0, 0), (3 * 10 ^ 38, 0, 0)] \<rparr>"

definition tiny_object :: object3d where
  \<comment> \<open>a mesh of two vertices at a distance of \<open>1e-40\<close>\<close>
  "tiny_object = \<lparr> location = (0, 0, 0), rotation_euler = (0, 0, 0), scale = (1, 1, 1),
                    verts = [(- (1 / (2 * 10 ^ 40)), 0, 0), (1 / (2 * 10 ^ 40), 0, 0)] \<rparr>"

definition collapsed_object :: object3d where
  \<comment> \<open>what the normaliser makes of \<open>huge_object\<close>\<close>
  "collapsed_object = \<lparr> location = (0, 0, 0), rotation_euler = (0, 0, 0), scale = (1, 1, 1),
                         verts = [(0, 0, 0), (0, 0, 0)] \<rparr>"

definition point_object :: object3d where
  \<comment> \<open>a mesh of one vertex\<close>
  "point_object = \<lparr> location = (0, 0, 0), rotation_euler = (0, 0, 0), scale = (1, 1, 1),
                     verts = [(3, 4, 5)] \<rparr>"

definition env_ok :: environment where
  \<comment> \<open>two models are found, and no call into the engine raises\<close>
  "env_ok = \<lparr> glob_recursive = (\<lambda>pattern. [''in/x/a.obj'', ''in/y/a.obj'']), cpu_count = 4,
               configure_engine = None, import_scene_obj = (\<lambda>path. Inr [box_object]),
               decorate_scene = None, render_error = (\<lambda>self. None) \<rparr>"

definition env_mixed :: environment where
  \<comment> \<open>two models are found, and the import of the second one raises\<close>
  "env_mixed = \<lparr> glob_recursive = (\<lambda>pattern. [''in/x/a.obj'', ''in/y/b.obj'']), cpu_count = 4,
                  configure_engine = None,
                  import_scene_obj = (\<lambda>path. if path = ''in/y/b.obj''
                                             then Inl (RuntimeError ''cannot read file'')
                                             else Inr [box_object]),
                  decorate_scene = None, render_error = (\<lambda>self. None) \<rparr>"


definition empty_world :: world where
  "empty_world = \<lparr> fs = Map.empty, rendered = [], stdout = [] \<rparr>"

definition blank_renderer :: renderer where
  "blank_renderer = \<lparr> obj_path = ''in/a.obj'', output_dir = ''out/a'', resolution = 512,
                       background_color = (1, 1, 1), model = box_object,
                       camera_location = (0, 0, 0), camera_rotation = (0, 0, 0),
                       ortho_scale = 6, filepath = ''/tmp/'' \<rparr>"

section \<open>Bounding boxes under translation and scaling\<close>


lemma list_min_Min: "xs \<noteq> [] \<Longrightarrow> list_min xs = Min (set xs)"
proof (cases xs)
  case (Cons a list)
  then show ?thesis using Min.set_eq_fold [of a list] by simp
qed simp

lemma list_max_Max: "xs \<noteq> [] \<Longrightarrow> list_max xs = Max (set xs)"
proof (cases xs)
  case (Cons a list)
  then show ?thesis using Max.set_eq_fold [of a list] by simp
qed simp

lemma list_min_le_max: "xs \<noteq> [] \<Longrightarrow> list_min xs \<le> list_max xs"
  by (simp add: list_min_Min list_max_Max)

lemma list_min_shift: "xs \<noteq> [] \<Longrightarrow> list_min (map (\<lambda>x. x - c) xs) = list_min xs - c"
proof -
  assume ne: "xs \<noteq> []"
  have "mono (\<lambda>x::real. x - c)" by (simp add: mono_def)
  then have "Min (set xs) - c = Min ((\<lambda>x. x - c) ` set xs)"
    using ne by (intro mono_Min_commute) auto
  then show ?thesis using ne by (simp add: list_min_Min)
qed

lemma list_max_shift: "xs \<noteq> [] \<Longrightarrow> list_max (map (\<lambda>x. x - c) xs) = list_max xs - c"
proof -
  assume ne: "xs \<noteq> []"
  have "mono (\<lambda>x::real. x - c)" by (simp add: mono_def)
  then have "Max (set xs) - c = Max ((\<lambda>x. x - c) ` set xs)"
    using ne by (intro mono_Max_commute) auto
  then show ?thesis using ne by (simp add: list_max_Max)
qed

lemma list_min_scale: "xs \<noteq> [] \<Longrightarrow> 0 \<le> s \<Longrightarrow> list_min (map (\<lambda>x. s * x) xs) = s * list_min xs"
proof -
  assume ne: "xs \<noteq> []" and s: "0 \<le> s"
  have "mono (\<lambda>x::real. s * x)" using s by (simp add: mono_def mult_left_mono)
  then have "s * Min (set xs) = Min ((\<lambda>x. s * x) ` set xs)"
    using ne by (intro mono_Min_commute) auto
  then show ?thesis using ne by (simp add: list_min_Min)
qed

lemma list_max_scale: "xs \<noteq> [] \<Longrightarrow> 0 \<le> s \<Longrightarrow> list_max (map (\<lambda>x. s * x) xs) = s * list_max xs"
proof -
  assume ne: "xs \<noteq> []" and s: "0 \<le> s"
  have "mono (\<lambda>x::real. s * x)" using s by (simp add: mono_def mult_left_mono)
  then have "s * Max (set xs) = Max ((\<lambda>x. s * x) ` set xs)"
    using ne by (intro mono_Max_commute) auto
  then show ?thesis using ne by (simp add: list_max_Max)
qed

lemma euler_rotate_zero: "euler_rotate (0, 0, 0) v = v"
  by (cases v) (simp add: euler_rotate_def rot_x_def rot_y_def rot_z_def)

lemma transform_point_id: "transform_point (0, 0, 0) (0, 0, 0) (1, 1, 1) v = v"
  by (cases v) (simp add: transform_point_def euler_rotate_zero vmul_def vadd_def)

lemma transform_point_scale:
  "transform_point (0, 0, 0) (0, 0, 0) (s, s, s) v = vmul (s, s, s) v"
  by (cases v) (simp add: transform_point_def euler_rotate_zero vmul_def vadd_def)


lemma xs_of_shift: "xs_of (map (\<lambda>v. vsub v c) vs) = map (\<lambda>x. x - fst c) (xs_of vs)"
  by (cases c) (simp add: xs_of_def vsub_def split_beta)

lemma ys_of_shift: "ys_of (map (\<lambda>v. vsub v c) vs) = map (\<lambda>x. x - fst (snd c)) (ys_of vs)"
  by (cases c) (simp add: ys_of_def vsub_def split_beta)

lemma zs_of_shift: "zs_of (map (\<lambda>v. vsub v c) vs) = map (\<lambda>x. x - snd (snd c)) (zs_of vs)"
  by (cases c) (simp add: zs_of_def vsub_def split_beta)

lemma xs_of_scale: "xs_of (map (vmul (s, s, s)) vs) = map (\<lambda>x. s * x) (xs_of vs)"
  by (simp add: xs_of_def vmul_def split_beta)

lemma ys_of_scale: "ys_of (map (vmul (s, s, s)) vs) = map (\<lambda>x. s * x) (ys_of vs)"
  by (simp add: ys_of_def vmul_def split_beta)

lemma zs_of_scale: "zs_of (map (vmul (s, s, s)) vs) = map (\<lambda>x. s * x) (zs_of vs)"
  by (simp add: zs_of_def vmul_def split_beta)

lemma coords_nonempty: "vs \<noteq> [] \<Longrightarrow> xs_of vs \<noteq> [] \<and> ys_of vs \<noteq> [] \<and> zs_of vs \<noteq> []"
  by (simp add: xs_of_def ys_of_def zs_of_def)

lemma bbox_min_shift:
  assumes "vs \<noteq> []"
  shows "bbox_min (map (\<lambda>v. vsub v c) vs) = vsub (bbox_min vs) c"
proof -
  obtain a b d where c: "c = (a, b, d)" by (cases c)
  have "bbox_min (map (\<lambda>v. vsub v c) vs)
        = (list_min (xs_of vs) - a, list_min (ys_of vs) - b, list_min (zs_of vs) - d)"
    using assms
    by (simp add: bbox_min_def xs_of_shift ys_of_shift zs_of_shift list_min_shift
        coords_nonempty c)
  also have "\<dots> = vsub (bbox_min vs) c"
    by (simp add: bbox_min_def vsub_def c)
  finally show ?thesis .
qed

lemma bbox_max_shift:
  assumes "vs \<noteq> []"
  shows "bbox_max (map (\<lambda>v. vsub v c) vs) = vsub (bbox_max vs) c"
proof -
  obtain a b d where c: "c = (a, b, d)" by (cases c)
  have "bbox_max (map (\<lambda>v. vsub v c) vs)
        = (list_max (xs_of vs) - a, list_max (ys_of vs) - b, list_max (zs_of vs) - d)"
    using assms
    by (simp add: bbox_max_def xs_of_shift ys_of_shift zs_of_shift list_max_shift
        coords_nonempty c)
  also have "\<dots> = vsub (bbox_max vs) c"
    by (simp add: bbox_max_def vsub_def c)
  finally show ?thesis .
qed

lemma bbox_min_scale:
  "vs \<noteq> [] \<Longrightarrow> 0 \<le> s \<Longrightarrow> bbox_min (map (vmul (s, s, s)) vs) = vmul (s, s, s) (bbox_min vs)"
  by (simp add: bbox_min_def xs_of_scale ys_of_scale zs_of_scale list_min_scale
      coords_nonempty vmul_def)

lemma bbox_max_scale:
  "vs \<noteq> [] \<Longrightarrow> 0 \<le> s \<Longrightarrow> bbox_max (map (vmul (s, s, s)) vs) = vmul (s, s, s) (bbox_max vs)"
  by (simp add: bbox_max_def xs_of_scale ys_of_scale zs_of_scale list_max_scale
      coords_nonempty vmul_def)

lemma bbox_of_corners:
  assumes "verts obj \<noteq> []"
  shows "bbox_min (bound_box obj) = bbox_min (verts obj)"
    and "bbox_max (bound_box obj) = bbox_max (verts obj)"
proof -
  obtain x0 y0 z0 where mn: "bbox_min (verts obj) = (x0, y0, z0)" by (cases "bbox_min (verts obj)")
  obtain x1 y1 z1 where mx: "bbox_max (verts obj) = (x1, y1, z1)" by (cases "bbox_max (verts obj)")
  have le: "x0 \<le> x1" "y0 \<le> y1" "z0 \<le> z1"
    using mn mx assms by (auto simp: bbox_min_def bbox_max_def list_min_le_max coords_nonempty)
  have bb: "bound_box obj = [(x0, y0, z0), (x0, y0, z1), (x0, y1, z1), (x0, y1, z0),
         (x1, y0, z0), (x1, y0, z1), (x1, y1, z1), (x1, y1, z0)]"
    by (simp add: bound_box_def mn mx)
  have "bbox_min [(x0, y0, z0), (x0, y0, z1), (x0, y1, z1), (x0, y1, z0),
         (x1, y0, z0), (x1, y0, z1), (x1, y1, z1), (x1, y1, z0)] = (x0, y0, z0)"
    using le by (simp add: bbox_min_def xs_of_def ys_of_def zs_of_def)
  then show "bbox_min (bound_box obj) = bbox_min (verts obj)"
    by (simp only: bb mn)
  have "bbox_max [(x0, y0, z0), (x0, y0, z1), (x0, y1, z1), (x0, y1, z0),
         (x1, y0, z0), (x1, y0, z1), (x1, y1, z1), (x1, y1, z0)] = (x1, y1, z1)"
    using le by (simp add: bbox_max_def xs_of_def ys_of_def zs_of_def)
  then show "bbox_max (bound_box obj) = bbox_max (verts obj)"
    by (simp only: bb mx)
qed

lemma extent_nonneg:
  assumes "vs \<noteq> []" shows "0 \<le> max3 (extent vs)"
proof -
  have "list_min (xs_of vs) \<le> list_max (xs_of vs)"
    using assms by (simp add: list_min_le_max coords_nonempty)
  then show ?thesis
    by (simp add: extent_def bbox_min_def bbox_max_def vsub_def max3_def max_def)
qed


lemma map_transform_point_id: "map (transform_point (0, 0, 0) (0, 0, 0) (1, 1, 1)) vs = vs"
  by (simp add: transform_point_id cong: map_cong)

lemma map_transform_point_scale:
  "map (transform_point (0, 0, 0) (0, 0, 0) (s, s, s)) vs = map (vmul (s, s, s)) vs"
  by (simp add: transform_point_scale)

lemma map_vmul_one: "map (vmul (1, 1, 1)) vs = vs"
  by (induction vs) (simp_all add: vmul_def split_beta)

lemma extent_shift: "extent (map (\<lambda>v. vsub v c) vs) = extent vs"
proof (cases "vs = []")
  case True
  then show ?thesis by simp
next
  case False
  obtain a b d where c: "c = (a, b, d)" by (cases c)
  show ?thesis
    using False
    by (simp add: extent_def bbox_min_shift bbox_max_shift)
       (simp add: vsub_def split_beta)
qed

lemma float32_max_pos: "0 < float32_max"
  by (simp add: float32_max_def)

lemma float32_mul_one: "float32_mul 1 (float32 x) = float32 x"
  by (simp add: float32_def)

lemma py_max3_float32:
  assumes "0 \<le> a" "0 \<le> b" "0 \<le> c"
  shows "py_max3 (float32 a, float32 b, float32 c) = float32 (max a (max b c))"
  using assms float32_max_pos
  by (auto simp: py_max3_def float32_def Let_def max_def)

lemma float32_zero_iff: "0 \<le> m \<Longrightarrow> float32 m = Finite 0 \<longleftrightarrow> m = 0"
  using float32_max_pos by (auto simp: float32_def)

lemma normalizer_factor:
  assumes "0 < m"
  shows "truediv 2 (float32 m) = Inr (Finite (if float32_max < m then 0 else 2 / m))"
    and "float32_store (Finite (if float32_max < m then 0 else 2 / m)) = normalizer_scale m"
proof -
  show "truediv 2 (float32 m) = Inr (Finite (if float32_max < m then 0 else 2 / m))"
    using assms float32_max_pos by (auto simp: float32_def)
  define q where "q = 2 / m"
  have "0 < q" using assms by (simp add: q_def)
  then have "- float32_max \<le> min float32_max q"
    using float32_max_pos by (simp add: min_def)
  then have "- float32_max \<le> min float32_max (2 / m)"
    by (simp only: q_def)
  then show "float32_store (Finite (if float32_max < m then 0 else 2 / m)) = normalizer_scale m"
    using float32_max_pos by (auto simp: float32_store_def normalizer_scale_def max_def)
qed

lemma extent_components_nonneg:
  assumes "extent vs = (ex, ey, ez)"
  shows "0 \<le> ex \<and> 0 \<le> ey \<and> 0 \<le> ez"
proof (cases "vs = []")
  case True
  then show ?thesis
    using assms
    by (simp add: extent_def bbox_min_def bbox_max_def xs_of_def ys_of_def zs_of_def vsub_def)
next
  case False
  then have "list_min (xs_of vs) \<le> list_max (xs_of vs)" "list_min (ys_of vs) \<le> list_max (ys_of vs)"
    "list_min (zs_of vs) \<le> list_max (zs_of vs)"
    by (simp_all add: list_min_le_max coords_nonempty)
  then show ?thesis
    using assms by (auto simp: extent_def bbox_min_def bbox_max_def vsub_def)
qed

lemma reset_model_transform_shape:
  fixes obj0 :: object3d
  defines "vs1 \<equiv> map (\<lambda>v. vsub v (bounds_center (world_verts obj0))) (world_verts obj0)"
  defines "m \<equiv> max3 (extent (world_verts obj0))"
  shows "reset_model_transform obj0 =
           Inr (obj0\<lparr> location := (0, 0, 0), rotation_euler := (0, 0, 0), scale := (1, 1, 1),
                      verts := (if m \<noteq> 0
                                then map (vmul (normalizer_scale m, normalizer_scale m,
                                                normalizer_scale m)) vs1
                                else vs1) \<rparr>)"
proof -
  define X where "X = obj0\<lparr> location := (0, 0, 0), rotation_euler := (0, 0, 0),
                          scale := (1, 1, 1), verts := vs1 \<rparr>"
  define k where "k = normalizer_scale m"
  have o4: "(origin_set_bounds (transform_apply True True True obj0))
              \<lparr> location := (0, 0, 0) \<rparr> \<lparr> rotation_euler := (0, 0, 0) \<rparr> = X"
    by (simp add: X_def origin_set_bounds_def transform_apply_def Let_def vs1_def
        world_verts_def matrix_world_def [abs_def])
  obtain ex ey ez where e: "extent vs1 = (ex, ey, ez)" by (cases "extent vs1")
  have nn: "0 \<le> ex" "0 \<le> ey" "0 \<le> ez"
    using extent_components_nonneg [OF e] by simp_all
  have dims: "dimensions X = (float32 ex, float32 ey, float32 ez)"
    using e by (simp add: X_def dimensions_def extent_def vsub_def split_beta float32_mul_one)
  have mm: "m = max ex (max ey ez)"
    using e by (simp add: m_def vs1_def [symmetric] max3_def)
       (simp add: vs1_def extent_shift m_def max3_def)
  have m0: "0 \<le> m" using nn by (simp add: mm)
  have md: "py_max3 (dimensions X) = float32 m"
    by (simp add: dims py_max3_float32 nn mm)
  have "reset_model_transform obj0 =
          (if py_max3 (dimensions X) \<noteq> Finite 0
           then (case truediv 2 (py_max3 (dimensions X)) of
                   Inl e \<Rightarrow> Inl e
                 | Inr scale_factor \<Rightarrow>
                     Inr (transform_apply False False True
                            (X\<lparr> scale := (float32_store scale_factor,
                                            float32_store scale_factor,
                                            float32_store scale_factor) \<rparr>)))
           else Inr (transform_apply False False True X))"
    by (simp only: reset_model_transform_def Let_def o4)
  also have "\<dots> =
          (if m \<noteq> 0
           then Inr (transform_apply False False True (X\<lparr> scale := (k, k, k) \<rparr>))
           else Inr (transform_apply False False True X))"
  proof (cases "m = 0")
    case True
    then show ?thesis by (simp add: md float32_zero_iff)
  next
    case False
    then have "0 < m" using m0 by simp
    then show ?thesis
      using False m0 by (simp add: md float32_zero_iff normalizer_factor k_def)
  qed
  also have "\<dots> = Inr (obj0\<lparr> location := (0, 0, 0), rotation_euler := (0, 0, 0), scale := (1, 1, 1),
                      verts := (if m \<noteq> 0 then map (vmul (k, k, k)) vs1 else vs1) \<rparr>)"
    by (simp add: X_def transform_apply_def Let_def map_transform_point_scale map_vmul_one)
  finally show ?thesis unfolding k_def .
qed

lemmas geom_defs = world_bbox_extent_def bound_box_def matrix_world_def
      transform_point_def euler_rotate_zero vmul_def vadd_def extent_def bbox_min_def
      bbox_max_def xs_of_def ys_of_def zs_of_def vsub_def world_verts_def bounds_center_def
      vdiv_def max3_def

section \<open>The normalised model\<close>

text \<open>
  C1, as stated, fails: the bounding box of \<open>huge_object\<close> has a largest extent above
  zero, but that extent is beyond the float32 range, so \<open>obj.dimensions\<close> holds an
  infinity, the scale factor \<open>2.0 / max_dim\<close> is 0 and the normalised mesh has largest
  extent 0.
\<close>

theorem normalizer_overflows:
  "0 < max3 (extent (world_verts huge_object)) \<and>
   reset_model_transform huge_object = Inr collapsed_object \<and>
   max3 (extent (world_verts (snd (auto_adjust_camera blank_renderer collapsed_object)))) = 0 \<and>
   max3 (extent (world_verts (snd (auto_adjust_camera blank_renderer collapsed_object)))) \<noteq> 2"
proof -
  have m: "max3 (extent (world_verts huge_object)) = 6 * 10 ^ 38"
    by (simp add: huge_object_def geom_defs)
  have k: "normalizer_scale (6 * 10 ^ 38) = 0"
    by (simp add: normalizer_scale_def float32_max_def)
  have r: "reset_model_transform huge_object = Inr collapsed_object"
    unfolding reset_model_transform_shape m k
    by (simp add: huge_object_def collapsed_object_def geom_defs)
  have e: "max3 (extent (world_verts (snd (auto_adjust_camera blank_renderer collapsed_object)))) = 0"
    by (simp add: auto_adjust_camera_def Let_def collapsed_object_def geom_defs vneg_def)
  show ?thesis using m r e by simp
qed

text \<open>
  The lower end of the range: a mesh of largest extent \<open>1e-40\<close> gets the scale factor
  \<open>2e40\<close>, which the engine's float32 scale holds as the largest float32, and the
  normalised mesh has a largest extent of about \<open>0.034\<close>.
\<close>

lemma normalizer_clamps:
  "max3 (extent (world_verts tiny_object)) = 1 / 10 ^ 40 \<and>
   (\<exists>obj1. reset_model_transform tiny_object = Inr obj1 \<and>
      max3 (extent (world_verts (snd (auto_adjust_camera blank_renderer obj1))))
        = float32_max / 10 ^ 40)"
proof -
  have m: "max3 (extent (world_verts tiny_object)) = 1 / 10 ^ 40"
    by (simp add: tiny_object_def geom_defs)
  have k: "normalizer_scale (1 / 10 ^ 40) = float32_max"
    by (simp add: normalizer_scale_def float32_max_def)
  define obj1 where "obj1 = tiny_object\<lparr> location := (0, 0, 0), rotation_euler := (0, 0, 0),
      scale := (1, 1, 1),
      verts := [(- (float32_max / (2 * 10 ^ 40)), 0, 0), (float32_max / (2 * 10 ^ 40), 0, 0)] \<rparr>"
  have r: "reset_model_transform tiny_object = Inr obj1"
    unfolding reset_model_transform_shape m k
    by (simp add: tiny_object_def obj1_def geom_defs)
  have pos: "0 < float32_max" by (rule float32_max_pos)
  have e: "max3 (extent (world_verts (snd (auto_adjust_camera blank_renderer obj1))))
             = float32_max / 10 ^ 40"
    using pos
    by (simp add: auto_adjust_camera_def Let_def obj1_def tiny_object_def geom_defs vneg_def)
  show ?thesis using m r e by blast
qed

text \<open>
  C1, amended. For every mesh whose bounding box in the world has a largest extent
  between \<open>2 / float32_max\<close> and \<open>float32_max\<close>, so that neither the extent nor the scale
  factor \<open>2 / extent\<close> leaves the float32 range, \<open>_reset_model_transform\<close> returns, and after
  it and \<open>_auto_adjust_camera\<close> the largest of the three dimensions of the bounding box
  of the model in the world is 2 and the centre of that box is the origin. (Rounding is
  not modelled: the arithmetic within the range is that of the real numbers.)
\<close>

theorem normalizer_unit_box:
  assumes lo: "2 / float32_max \<le> max3 (extent (world_verts obj))"
    and hi: "max3 (extent (world_verts obj)) \<le> float32_max"
  shows "\<exists>obj1. reset_model_transform obj = Inr obj1 \<and>
           max3 (extent (world_verts (snd (auto_adjust_camera self obj1)))) = 2 \<and>
           bounds_center (world_verts (snd (auto_adjust_camera self obj1))) = (0, 0, 0)"
proof -
  define m where "m = max3 (extent (world_verts obj))"
  define s where "s = 2 / m"
  define vs0 where "vs0 = world_verts obj"
  define c where "c = bounds_center vs0"
  define vs1 where "vs1 = map (\<lambda>v. vsub v c) vs0"
  define vs2 where "vs2 = map (vmul (s, s, s)) vs1"
  define obj1 where "obj1 = obj\<lparr> location := (0, 0, 0), rotation_euler := (0, 0, 0),
                                 scale := (1, 1, 1), verts := vs2 \<rparr>"
  have "0 < 2 / float32_max" using float32_max_pos by simp
  then have pos: "0 < max3 (extent (world_verts obj))" using lo by linarith
  have mpos: "0 < m" and spos: "0 < s" using pos by (simp_all add: m_def s_def)
  have "2 \<le> m * float32_max"
    using lo float32_max_pos by (simp add: m_def field_simps)
  then have "2 / m \<le> float32_max"
    using mpos by (simp add: field_simps)
  then have ns: "normalizer_scale m = s"
    using hi by (simp add: normalizer_scale_def m_def s_def min_def)
  have "max3 (extent []) = 0"
    by (simp add: extent_def bbox_min_def bbox_max_def xs_of_def ys_of_def zs_of_def
        vsub_def max3_def)
  then have vs0_ne: "vs0 \<noteq> []" using pos by (auto simp: vs0_def)
  then have vs1_ne: "vs1 \<noteq> []" and vs2_ne: "vs2 \<noteq> []" by (simp_all add: vs1_def vs2_def)
  have r: "reset_model_transform obj = Inr obj1"
    using mpos reset_model_transform_shape [of obj] ns
    by (simp add: obj1_def vs2_def vs1_def c_def vs0_def m_def)
  obtain x0 y0 z0 where mn0: "bbox_min vs0 = (x0, y0, z0)" by (cases "bbox_min vs0")
  obtain x1 y1 z1 where mx0: "bbox_max vs0 = (x1, y1, z1)" by (cases "bbox_max vs0")
  have cval: "c = ((x1 + x0) / 2, (y1 + y0) / 2, (z1 + z0) / 2)"
    by (simp add: c_def bounds_center_def mn0 mx0 vadd_def vdiv_def)
  have mval: "m = max (x1 - x0) (max (y1 - y0) (z1 - z0))"
    by (simp add: m_def vs0_def [symmetric] extent_def mn0 mx0 vsub_def max3_def)
  have mn1: "bbox_min vs1 = ((x0 - x1) / 2, (y0 - y1) / 2, (z0 - z1) / 2)"
  proof -
    have "bbox_min vs1 = vsub (bbox_min vs0) c"
      unfolding vs1_def using vs0_ne by (rule bbox_min_shift)
    then show ?thesis by (simp add: mn0 cval vsub_def field_simps)
  qed
  have mx1: "bbox_max vs1 = ((x1 - x0) / 2, (y1 - y0) / 2, (z1 - z0) / 2)"
  proof -
    have "bbox_max vs1 = vsub (bbox_max vs0) c"
      unfolding vs1_def using vs0_ne by (rule bbox_max_shift)
    then show ?thesis by (simp add: mx0 cval vsub_def field_simps)
  qed
  have mn2: "bbox_min vs2 = (s * ((x0 - x1) / 2), s * ((y0 - y1) / 2), s * ((z0 - z1) / 2))"
  proof -
    have "bbox_min vs2 = vmul (s, s, s) (bbox_min vs1)"
      unfolding vs2_def using vs1_ne spos by (intro bbox_min_scale) simp_all
    then show ?thesis by (simp add: mn1 vmul_def)
  qed
  have mx2: "bbox_max vs2 = (s * ((x1 - x0) / 2), s * ((y1 - y0) / 2), s * ((z1 - z0) / 2))"
  proof -
    have "bbox_max vs2 = vmul (s, s, s) (bbox_max vs1)"
      unfolding vs2_def using vs1_ne spos by (intro bbox_max_scale) simp_all
    then show ?thesis by (simp add: mx1 vmul_def)
  qed
  have mw: "map (matrix_world obj1) ws = ws" for ws
    by (simp add: matrix_world_def [abs_def] obj1_def map_transform_point_id)
  have v1: "verts obj1 = vs2" by (simp add: obj1_def)
  have cmn: "bbox_min (bound_box obj1) = bbox_min vs2"
    and cmx: "bbox_max (bound_box obj1) = bbox_max vs2"
    using bbox_of_corners [of obj1] vs2_ne by (simp_all add: v1)
  have obj2: "snd (auto_adjust_camera self obj1) = obj1\<lparr> location := (0, 0, 0) \<rparr>"
    by (simp add: auto_adjust_camera_def Let_def mw cmn cmx mn2 mx2 vadd_def vdiv_def vneg_def
        field_simps)
  have obj2': "obj1\<lparr> location := (0, 0, 0) \<rparr> = obj1" by (simp add: obj1_def)
  have ww: "world_verts obj1 = vs2"
    by (simp add: world_verts_def mw v1)
  have ext: "extent vs2 = (s * (x1 - x0), s * (y1 - y0), s * (z1 - z0))"
    by (simp add: extent_def mn2 mx2 vsub_def field_simps)
  have "max3 (extent vs2) = s * m"
    using spos by (simp add: ext max3_def mval max_mult_distrib_left)
  then have e2: "max3 (extent vs2) = 2" using mpos by (simp add: s_def)
  have c2: "bounds_center vs2 = (0, 0, 0)"
    by (simp add: bounds_center_def mn2 mx2 vadd_def vdiv_def field_simps)
  show ?thesis
    using r e2 c2 by (simp add: obj2 obj2' ww)
qed


theorem normalizer_unit_box_witness:
  "2 / float32_max \<le> max3 (extent (world_verts box_object)) \<and>
   max3 (extent (world_verts box_object)) \<le> float32_max \<and>
   (\<exists>obj1. reset_model_transform box_object = Inr obj1 \<and>
      max3 (extent (world_verts (snd (auto_adjust_camera blank_renderer obj1)))) = 2 \<and>
      bounds_center (world_verts (snd (auto_adjust_camera blank_renderer obj1))) = (0, 0, 0))"
proof -
  have m: "max3 (extent (world_verts box_object)) = 4"
    by (simp add: box_object_def geom_defs)
  have h1: "2 / float32_max \<le> max3 (extent (world_verts box_object))"
    by (simp add: m float32_max_def)
  have h2: "max3 (extent (world_verts box_object)) \<le> float32_max"
    by (simp add: m float32_max_def)
  show ?thesis using h1 h2 normalizer_unit_box [OF h1 h2, of blank_renderer] by blast
qed

lemma reset_model_transform_total: "reset_model_transform obj \<noteq> Inl e"
  by (simp add: reset_model_transform_shape)

text \<open>
  C2. For every mesh whose largest bounding-box extent is zero, \<open>_reset_model_transform\<close>
  returns without raising \<open>ZeroDivisionError\<close>: the scaling step is skipped, the scale
  stays \<open>(1, 1, 1)\<close> and the vertices are those of the centred mesh, unscaled.
\<close>

theorem degenerate_mesh_not_scaled:
  assumes "max3 (extent (world_verts obj)) = 0"
  shows "reset_model_transform obj =
           Inr (obj\<lparr> location := (0, 0, 0), rotation_euler := (0, 0, 0), scale := (1, 1, 1),
                     verts := map (\<lambda>v. vsub v (bounds_center (world_verts obj)))
                                (world_verts obj) \<rparr>)"
  using assms by (simp add: reset_model_transform_shape)

theorem degenerate_mesh_not_scaled_witness:
  "max3 (extent (world_verts point_object)) = 0 \<and>
   reset_model_transform point_object =
     Inr (point_object\<lparr> location := (0, 0, 0), rotation_euler := (0, 0, 0),
            scale := (1, 1, 1),
            verts := map (\<lambda>v. vsub v (bounds_center (world_verts point_object)))
                       (world_verts point_object) \<rparr>)"
proof -
  have h: "max3 (extent (world_verts point_object)) = 0"
    by (simp add: point_object_def world_verts_def matrix_world_def transform_point_def
        euler_rotate_zero vmul_def vadd_def extent_def bbox_min_def bbox_max_def xs_of_def
        ys_of_def zs_of_def vsub_def max3_def)
  show ?thesis using h degenerate_mesh_not_scaled [OF h] by simp
qed

section \<open>The orthographic scale\<close>

lemma auto_adjust_camera_ortho_scale:
  "ortho_scale (fst (auto_adjust_camera self obj)) = max3 (world_bbox_extent obj) * (12 / 10)"
  by (simp add: auto_adjust_camera_def Let_def world_bbox_extent_def extent_def)

lemma normalized_bbox_extent:
  assumes "reset_model_transform obj0 = Inr obj"
  shows "world_bbox_extent obj = extent (world_verts obj)"
proof -
  define m where "m = max3 (extent (world_verts obj0))"
  define vs1 where
    "vs1 = map (\<lambda>v. vsub v (bounds_center (world_verts obj0))) (world_verts obj0)"
  define vs2 where
    "vs2 = (if m \<noteq> 0
            then map (vmul (normalizer_scale m, normalizer_scale m, normalizer_scale m)) vs1
            else vs1)"
  have obj: "obj = obj0\<lparr> location := (0, 0, 0), rotation_euler := (0, 0, 0),
                          scale := (1, 1, 1), verts := vs2 \<rparr>"
    using assms by (auto simp: reset_model_transform_shape vs2_def vs1_def m_def)
  have mw: "map (matrix_world obj) ws = ws" for ws
    by (simp add: matrix_world_def [abs_def] obj map_transform_point_id)
  show ?thesis
  proof (cases "verts obj = []")
    case True
    then show ?thesis
      by (simp add: world_bbox_extent_def world_verts_def mw)
         (simp add: bound_box_def extent_def bbox_min_def bbox_max_def xs_of_def ys_of_def
            zs_of_def vsub_def)
  next
    case False
    then show ?thesis
      using bbox_of_corners [OF False]
      by (simp add: world_bbox_extent_def world_verts_def mw extent_def)
  qed
qed

text \<open>
  C7. The orthographic scale that \<open>_auto_adjust_camera\<close> sets is the largest extent of
  the model's bounding box times 1.2; hence a model whose largest extent is twice that of
  another gets twice the orthographic scale. The box measured is the one around the
  model's vertices in the world once the model has been normalised.
\<close>

theorem ortho_scale_linear:
  "ortho_scale (fst (auto_adjust_camera self obj)) = max3 (world_bbox_extent obj) * (12 / 10) \<and>
   (max3 (world_bbox_extent obj') = 2 * max3 (world_bbox_extent obj) \<longrightarrow>
      ortho_scale (fst (auto_adjust_camera self' obj'))
        = 2 * ortho_scale (fst (auto_adjust_camera self obj))) \<and>
   (reset_model_transform obj0 = Inr obj \<longrightarrow>
      ortho_scale (fst (auto_adjust_camera self obj))
        = max3 (extent (world_verts obj)) * (12 / 10))"
  using normalized_bbox_extent [of obj0 obj]
  by (simp add: auto_adjust_camera_ortho_scale)


lemma normalized_box_extent: "world_bbox_extent normalized_box = (1 / 2, 1, 2)"
  by (simp add: normalized_box_def geom_defs)

lemma big_box_extent: "world_bbox_extent big_box_object = (1, 2, 4)"
  by (simp add: big_box_object_def geom_defs)

lemma reset_box_object: "reset_model_transform box_object = Inr normalized_box"
proof -
  have m: "max3 (extent (world_verts box_object)) = 4"
    by (simp add: box_object_def geom_defs)
  have k: "normalizer_scale 4 = 1 / 2"
    by (simp add: normalizer_scale_def float32_max_def)
  show ?thesis
    unfolding reset_model_transform_shape m k
    by (simp add: box_object_def normalized_box_def geom_defs)
qed

theorem ortho_scale_linear_witness:
  "max3 (world_bbox_extent big_box_object) = 2 * max3 (world_bbox_extent normalized_box) \<and>
   reset_model_transform box_object = Inr normalized_box \<and>
   ortho_scale (fst (auto_adjust_camera blank_renderer normalized_box)) = 2 * (12 / 10) \<and>
   ortho_scale (fst (auto_adjust_camera blank_renderer big_box_object)) = 4 * (12 / 10) \<and>
   ortho_scale (fst (auto_adjust_camera blank_renderer normalized_box))
     = max3 (extent (world_verts normalized_box)) * (12 / 10)"
proof -
  have h1: "max3 (world_bbox_extent big_box_object) = 2 * max3 (world_bbox_extent normalized_box)"
    by (simp add: normalized_box_extent big_box_extent max3_def)
  note h3 = reset_box_object
  have e: "max3 (world_bbox_extent normalized_box) = 2"
    by (simp add: normalized_box_extent max3_def)
  show ?thesis
    using h1 h3 e
      ortho_scale_linear [of blank_renderer normalized_box big_box_object blank_renderer box_object]
    by simp
qed

section \<open>The views that are rendered\<close>

lemma render_view_Inl: "render_view env name pos rot self w = (Inl e, w') \<Longrightarrow> w' = w"
  by (auto simp: render_view_def Let_def split: option.splits)

lemma render_view_Inr:
  assumes "render_view env name pos rot self w = (Inr self', w')"
  shows "self' = self\<lparr> camera_location := pos, camera_rotation := rot,
                       filepath := path_join (output_dir self) (name @ ''.png'') \<rparr>"
    and "rendered w' = rendered w @ [(name, self')]"
    and "fs w' = (fs w)(path_join (output_dir self) (name @ ''.png'') \<mapsto> File self')"
  using assms
  by (auto simp: render_view_def Let_def set_camera_position_def print_def split: option.splits)

lemma render_view_succeeds:
  assumes "\<And>r. render_error env r = None"
  shows "\<exists>self' w'. render_view env name pos rot self w = (Inr self', w')"
  by (simp add: render_view_def Let_def assms)

lemma render_views_log:
  "render_views env views self w = (res, w') \<Longrightarrow>
     \<exists>n rs. n \<le> length views \<and> rendered w' = rendered w @ rs \<and>
       map pose_of rs = take n views \<and>
       (\<forall>self'. res = Inr self' \<longrightarrow> n = length views)"
proof (induction views arbitrary: self w)
  case Nil
  then show ?case by auto
next
  case (Cons v views)
  obtain name pos rot where v: "v = (name, pos, rot)" by (cases v)
  obtain r1 w1 where rv: "render_view env name pos rot self w = (r1, w1)"
    by (cases "render_view env name pos rot self w")
  show ?case
  proof (cases r1)
    case (Inl e)
    with Cons.prems rv v have "res = Inl e" "w' = w1" by auto
    moreover have "w1 = w" using rv Inl render_view_Inl by blast
    ultimately show ?thesis
      by (intro exI [of _ 0] exI [of _ "[]"]) simp
  next
    case (Inr self1)
    with Cons.prems rv v have rest: "render_views env views self1 w1 = (res, w')" by simp
    from Cons.IH [OF rest] obtain n rs where
      n: "n \<le> length views" and rs: "rendered w' = rendered w1 @ rs"
      and poses: "map pose_of rs = take n views"
      and full: "\<forall>self'. res = Inr self' \<longrightarrow> n = length views" by blast
    have s1: "self1 = self\<lparr> camera_location := pos, camera_rotation := rot,
                       filepath := path_join (output_dir self) (name @ ''.png'') \<rparr>"
      and r1: "rendered w1 = rendered w @ [(name, self1)]"
      using render_view_Inr [of env name pos rot self w self1 w1] rv Inr by simp_all
    have p1: "pose_of (name, self1) = v"
      by (simp add: pose_of_def s1 v)
    show ?thesis
      using n rs poses full r1 p1
      by (intro exI [of _ "Suc n"] exI [of _ "(name, self1) # rs"]) simp
  qed
qed

lemma render_views_succeeds:
  assumes "\<And>r. render_error env r = None"
  shows "\<exists>self' w'. render_views env views self w = (Inr self', w')"
proof (induction views arbitrary: self w)
  case Nil
  then show ?case by simp
next
  case (Cons v views)
  obtain name pos rot where v: "v = (name, pos, rot)" by (cases v)
  obtain self1 w1 where "render_view env name pos rot self w = (Inr self1, w1)"
    using render_view_succeeds [OF assms] by blast
  then show ?case using Cons.IH [of self1 w1] by (simp add: v)
qed

lemma render_all_views_succeeds:
  assumes "\<And>r. render_error env r = None"
  shows "\<exists>self' w'. render_all_views env self w = (Inr self', w')"
proof -
  obtain self1 w1 where
    "render_views env orthographic_views self (print ortho_header w) = (Inr self1, w1)"
    using render_views_succeeds [OF assms] by blast
  then show ?thesis
    using render_views_succeeds [OF assms, of iso_views self1 "print iso_header w1"]
    by (simp add: render_all_views_def)
qed

lemma render_all_views_log:
  assumes "render_all_views env self w = (res, w')"
  shows "\<exists>n. n \<le> 10 \<and>
           map pose_of (new_renders w w') = take n (orthographic_views @ iso_views) \<and>
           (\<forall>self'. res = Inr self' \<longrightarrow> n = 10)"
proof -
  have len: "length orthographic_views = 6" "length iso_views = 4"
    by (simp_all add: orthographic_views_def iso_views_def)
  obtain r1 w1 where
    o: "render_views env orthographic_views self (print ortho_header w) = (r1, w1)"
    by (cases "render_views env orthographic_views self (print ortho_header w)")
  from render_views_log [OF o] obtain n rs where
    n: "n \<le> 6" and rs: "rendered w1 = rendered w @ rs"
    and poses: "map pose_of rs = take n orthographic_views"
    and full: "\<forall>self'. r1 = Inr self' \<longrightarrow> n = 6"
    by (auto simp: len print_def)
  show ?thesis
  proof (cases r1)
    case (Inl e)
    with assms o have "res = Inl e" "w' = w1" by (simp_all add: render_all_views_def)
    then show ?thesis
      using n rs poses len
      by (intro exI [of _ n]) (simp add: new_renders_def)
  next
    case (Inr self1)
    with assms o have
      i: "render_views env iso_views self1 (print iso_header w1) = (res, w')"
      by (simp add: render_all_views_def)
    from render_views_log [OF i] obtain k rs2 where
      k: "k \<le> 4" and rs2: "rendered w' = rendered w1 @ rs2"
      and poses2: "map pose_of rs2 = take k iso_views"
      and full2: "\<forall>self'. res = Inr self' \<longrightarrow> k = 4"
      by (auto simp: len print_def)
    have n6: "n = 6" using full Inr by simp
    show ?thesis
      using k rs rs2 poses poses2 full2 n6 len
      by (intro exI [of _ "6 + k"]) (simp add: new_renders_def)
  qed
qed

lemma env_ok_renders: "render_error env_ok r = None"
  by (simp add: env_ok_def)

text \<open>
  C3. Whatever the model, the environment and the world, a run of \<open>render_all_views\<close>
  that completes renders its first six views with exactly these camera poses: front at
  \<open>(0, -15, 0)\<close> with rotation (90, 0, 180) degrees, back at \<open>(0, 15, 0)\<close> with (90, 0, 0),
  right at \<open>(15, 0, 0)\<close> with (90, 0, 90), left at \<open>(-15, 0, 0)\<close> with (90, 0, -90), top at
  \<open>(0, 0, 15)\<close> with (0, 0, 180) and bottom at \<open>(0, 0, -15)\<close> with (180, 0, 180).
\<close>

theorem orthographic_poses_fixed:
  assumes "render_all_views env self w = (Inr self', w')"
  shows "take 6 (map pose_of (new_renders w w')) =
           [(''front'', (0, - 15, 0), (radians 90, 0, radians 180)),
            (''back'', (0, 15, 0), (radians 90, 0, radians 0)),
            (''right'', (15, 0, 0), (radians 90, 0, radians 90)),
            (''left'', (- 15, 0, 0), (radians 90, 0, radians (- 90))),
            (''top'', (0, 0, 15), (0, 0, radians 180)),
            (''bottom'', (0, 0, - 15), (radians 180, 0, radians 180))]"
proof -
  from render_all_views_log [OF assms]
  have "map pose_of (new_renders w w') = take 10 (orthographic_views @ iso_views)" by auto
  then show ?thesis
    by (simp add: orthographic_views_def radians_def)
qed

theorem orthographic_poses_fixed_witness:
  "\<exists>self' w'. render_all_views env_ok blank_renderer empty_world = (Inr self', w') \<and>
     take 6 (map pose_of (new_renders empty_world w')) =
           [(''front'', (0, - 15, 0), (radians 90, 0, radians 180)),
            (''back'', (0, 15, 0), (radians 90, 0, radians 0)),
            (''right'', (15, 0, 0), (radians 90, 0, radians 90)),
            (''left'', (- 15, 0, 0), (radians 90, 0, radians (- 90))),
            (''top'', (0, 0, 15), (0, 0, radians 180)),
            (''bottom'', (0, 0, - 15), (radians 180, 0, radians 180))]"
proof -
  obtain self' w' where h: "render_all_views env_ok blank_renderer empty_world = (Inr self', w')"
    using render_all_views_succeeds [of env_ok, OF env_ok_renders] by blast
  show ?thesis using h orthographic_poses_fixed [OF h] by blast
qed

text \<open>
  The directions in which these six poses look: right, left, top and bottom look towards
  the origin from their positions; front looks along \<open>-Y\<close> from \<open>y = -15\<close> and back along
  \<open>+Y\<close> from \<open>y = 15\<close>.
\<close>

lemma orthographic_forward_axes:
  "map (\<lambda>v. (fst v, camera_forward (snd (snd v)))) orthographic_views =
     [(''front'', (0, - 1, 0)), (''back'', (0, 1, 0)), (''right'', (- 1, 0, 0)),
      (''left'', (1, 0, 0)), (''top'', (0, 0, - 1)), (''bottom'', (0, 0, 1))]"
  by (simp add: orthographic_views_def camera_forward_def euler_rotate_def rot_x_def rot_y_def
      rot_z_def radians_def)

text \<open>
  C6. Within one run of \<open>render_all_views\<close> the views are rendered one after the other
  in the order front, back, right, left, top, bottom, standard, iso_back, iso_left,
  iso_right: the renders of any run are a beginning of that list, and all of it when the
  run completes.
\<close>

theorem views_rendered_in_order:
  assumes "render_all_views env self w = (res, w')"
  shows "(\<exists>n \<le> 10. map fst (new_renders w w') = take n view_names) \<and>
         (\<forall>self'. res = Inr self' \<longrightarrow> map fst (new_renders w w') = view_names)"
proof -
  have names: "map fst (orthographic_views @ iso_views) = view_names"
    by (simp add: orthographic_views_def iso_views_def view_names_def)
  have fst_pose: "map fst (map pose_of rs) = map fst rs" for rs :: "(string \<times> renderer) list"
    by (simp add: pose_of_def)
  from render_all_views_log [OF assms] obtain n where
    n: "n \<le> 10"
    and p: "map pose_of (new_renders w w') = take n (orthographic_views @ iso_views)"
    and full: "\<forall>self'. res = Inr self' \<longrightarrow> n = 10" by blast
  have "map fst (new_renders w w') = map fst (take n (orthographic_views @ iso_views))"
    using p fst_pose [of "new_renders w w'"] by simp
  then have t: "map fst (new_renders w w') = take n view_names"
    by (simp add: take_map names [symmetric] del: map_append)
  have "length view_names = 10" by (simp add: view_names_def)
  then show ?thesis using n t full by auto
qed

theorem views_rendered_in_order_witness:
  "\<exists>res w'. render_all_views env_ok blank_renderer empty_world = (res, w') \<and>
     (\<exists>n \<le> 10. map fst (new_renders empty_world w') = take n view_names) \<and>
     (\<exists>self'. res = Inr self') \<and> map fst (new_renders empty_world w') = view_names"
proof -
  obtain self' w' where h: "render_all_views env_ok blank_renderer empty_world = (Inr self', w')"
    using render_all_views_succeeds [of env_ok, OF env_ok_renders] by blast
  show ?thesis using h views_rendered_in_order [OF h] by blast
qed

section \<open>The isometric angle\<close>

lemma one_plus_sq_pos: "0 < 1 + (u::real)\<^sup>2"
  by (simp add: add_pos_nonneg)

lemma arctan_upper5:
  fixes x :: real
  assumes "0 \<le> x"
  shows "arctan x \<le> x - x ^ 3 / 3 + x ^ 5 / 5"
proof -
  let ?f = "\<lambda>u::real. u - u ^ 3 / 3 + u ^ 5 / 5 - arctan u"
  have d: "(?f has_real_derivative (u ^ 6 / (1 + u\<^sup>2))) (at u)" for u :: real
  proof -
    have nz: "1 + u\<^sup>2 \<noteq> 0" using one_plus_sq_pos [of u] by simp
    have eq: "1 - u\<^sup>2 + u ^ 4 - inverse (1 + u\<^sup>2) = u ^ 6 / (1 + u\<^sup>2)"
      using nz by (simp add: field_simps)
    have "(?f has_real_derivative (1 - u\<^sup>2 + u ^ 4 - inverse (1 + u\<^sup>2))) (at u)"
      by (auto intro!: derivative_eq_intros)
    then show ?thesis by (simp only: eq)
  qed
  have "?f 0 \<le> ?f x"
  proof (rule DERIV_nonneg_imp_nondecreasing [OF assms])
    fix u :: real
    have "0 \<le> u ^ 6 / (1 + u\<^sup>2)"
      by (intro divide_nonneg_pos one_plus_sq_pos) simp
    then show "\<exists>y. (?f has_real_derivative y) (at u) \<and> 0 \<le> y" using d by blast
  qed
  then show ?thesis by simp
qed

lemma arctan_lower7:
  fixes x :: real
  assumes "0 \<le> x"
  shows "x - x ^ 3 / 3 + x ^ 5 / 5 - x ^ 7 / 7 \<le> arctan x"
proof -
  let ?g = "\<lambda>u::real. arctan u - (u - u ^ 3 / 3 + u ^ 5 / 5 - u ^ 7 / 7)"
  have d: "(?g has_real_derivative (u ^ 8 / (1 + u\<^sup>2))) (at u)" for u :: real
  proof -
    have nz: "1 + u\<^sup>2 \<noteq> 0" using one_plus_sq_pos [of u] by simp
    have eq: "inverse (1 + u\<^sup>2) - (1 - u\<^sup>2 + u ^ 4 - u ^ 6) = u ^ 8 / (1 + u\<^sup>2)"
      using nz by (simp add: field_simps)
    have "(?g has_real_derivative (inverse (1 + u\<^sup>2) - (1 - u\<^sup>2 + u ^ 4 - u ^ 6))) (at u)"
      by (auto intro!: derivative_eq_intros)
    then show ?thesis by (simp only: eq)
  qed
  have "?g 0 \<le> ?g x"
  proof (rule DERIV_nonneg_imp_nondecreasing [OF assms])
    fix u :: real
    have "0 \<le> u ^ 8 / (1 + u\<^sup>2)"
      by (intro divide_nonneg_pos one_plus_sq_pos) simp
    then show "\<exists>y. (?g has_real_derivative y) (at u) \<and> 0 \<le> y" using d by blast
  qed
  then show ?thesis by simp
qed

lemma pi_bounds: "314159 / 100000 < pi" "pi < 314163 / 100000"
proof -
  define l5 :: real where "l5 = 1 / 5 - (1 / 5) ^ 3 / 3 + (1 / 5) ^ 5 / 5 - (1 / 5) ^ 7 / 7"
  define u5 :: real where "u5 = 1 / 5 - (1 / 5) ^ 3 / 3 + (1 / 5) ^ 5 / 5"
  define l239 :: real where
    "l239 = 1 / 239 - (1 / 239) ^ 3 / 3 + (1 / 239) ^ 5 / 5 - (1 / 239) ^ 7 / 7"
  define u239 :: real where "u239 = 1 / 239 - (1 / 239) ^ 3 / 3 + (1 / 239) ^ 5 / 5"
  have a: "l5 \<le> arctan (1 / 5)" unfolding l5_def by (rule arctan_lower7) simp
  have b: "arctan (1 / 5) \<le> u5" unfolding u5_def by (rule arctan_upper5) simp
  have c: "l239 \<le> arctan (1 / 239)" unfolding l239_def by (rule arctan_lower7) simp
  have d: "arctan (1 / 239) \<le> u239" unfolding u239_def by (rule arctan_upper5) simp
  have p: "pi = 16 * arctan (1 / 5) - 4 * arctan (1 / 239)"
    using machin by simp
  have "314159 / 100000 < 16 * l5 - 4 * u239"
    by (simp add: l5_def u239_def power_divide)
  also have "\<dots> \<le> pi" using a d p by linarith
  finally show "314159 / 100000 < pi" .
  have "pi \<le> 16 * u5 - 4 * l239" using b c p by linarith
  also have "\<dots> < 314163 / 100000"
    by (simp add: u5_def l239_def power_divide)
  finally show "pi < 314163 / 100000" .
qed

lemma sqrt2_bounds: "1414213 / 1000000 < sqrt 2" "sqrt 2 < 1414214 / 1000000"
proof -
  show "1414213 / 1000000 < sqrt 2"
    by (rule real_less_rsqrt) (simp add: power2_eq_square)
  show "sqrt 2 < 1414214 / 1000000"
    by (rule real_less_lsqrt) (simp_all add: power2_eq_square)
qed

lemma arctan_sqrt2: "arctan (sqrt 2) = pi / 4 + arctan (3 - 2 * sqrt 2)"
proof -
  let ?s = "sqrt 2 :: real"
  let ?y = "3 - 2 * ?s"
  have s2: "?s * ?s = 2" by simp
  have y: "\<bar>?y\<bar> < 1" using sqrt2_bounds by simp
  have ne: "1 - ?y \<noteq> 0" using sqrt2_bounds by simp
  have "(1 + ?y) / (1 - 1 * ?y) = ?s"
  proof -
    have "(1 + ?y) = ?s * (1 - ?y)" using s2 by (simp add: algebra_simps)
    then show ?thesis using ne by (simp add: field_simps)
  qed
  moreover have "arctan 1 + arctan ?y = arctan ((1 + ?y) / (1 - 1 * ?y))"
    by (rule arctan_add) (use y in simp_all)
  ultimately show ?thesis by (simp add: arctan_one)
qed

lemma arctan_u_bounds:
  "1699175 / 10000000 < arctan (3 - 2 * sqrt 2)"
  "arctan (3 - 2 * sqrt 2) < 1699202 / 10000000"
proof -
  let ?lo = "171572 / 1000000 :: real"
  let ?hi = "171574 / 1000000 :: real"
  have lo: "?lo \<le> 3 - 2 * sqrt 2" and hi: "3 - 2 * sqrt 2 \<le> ?hi"
    using sqrt2_bounds by simp_all
  have "1699175 / 10000000 < ?lo - ?lo ^ 3 / 3 + ?lo ^ 5 / 5 - ?lo ^ 7 / 7"
    by (simp add: power_divide)
  also have "\<dots> \<le> arctan ?lo" by (rule arctan_lower7) simp
  also have "\<dots> \<le> arctan (3 - 2 * sqrt 2)" using lo by (rule arctan_monotone')
  finally show "1699175 / 10000000 < arctan (3 - 2 * sqrt 2)" .
  have "arctan (3 - 2 * sqrt 2) \<le> arctan ?hi" using hi by (rule arctan_monotone')
  also have "\<dots> \<le> ?hi - ?hi ^ 3 / 3 + ?hi ^ 5 / 5" by (rule arctan_upper5) simp
  also have "\<dots> < 1699202 / 10000000" by (simp add: power_divide)
  finally show "arctan (3 - 2 * sqrt 2) < 1699202 / 10000000" .
qed

lemma iso_angle_minus_arctan_sqrt2:
  "iso_angle - arctan (sqrt 2) = 9736 / 180000 * pi - arctan (3 - 2 * sqrt 2)"
  by (simp add: iso_angle_def radians_def arctan_sqrt2 field_simps)

lemma iso_angle_close: "\<bar>iso_angle - arctan (sqrt 2)\<bar> < 5 / 100000"
proof -
  have "9736 / 180000 * pi < 9736 / 180000 * (314163 / 100000)"
    using pi_bounds(2) by simp
  moreover have "9736 / 180000 * (314159 / 100000) < 9736 / 180000 * pi"
    using pi_bounds(1) by simp
  ultimately show ?thesis
    using arctan_u_bounds unfolding iso_angle_minus_arctan_sqrt2 by simp
qed

text \<open>
  C4, as stated, fails: the pitch of the view \<open>standard\<close> is not within \<open>0.0001\<close> of
  \<open>arctan (1 / sqrt 2)\<close>, which is about \<open>0.615480\<close>.
\<close>

theorem iso_pitch_not_arctan_inverse_sqrt2:
  "\<not> \<bar>pitch_of (iso_views ! 0) - arctan (1 / sqrt 2)\<bar> < 1 / 10000"
proof -
  have "1 / sqrt 2 < (1::real)" by simp
  then have "arctan (1 / sqrt 2) < pi / 4"
    using arctan_less_iff [of "1 / sqrt 2" 1] by (simp add: arctan_one)
  moreover have "pitch_of (iso_views ! 0) = 54736 / 180000 * pi"
    by (simp add: pitch_of_def iso_views_def iso_angle_def radians_def)
  ultimately show ?thesis using pi_bounds(1) by simp
qed

text \<open>
  C4, amended. A run of \<open>render_all_views\<close> that completes renders its last four views
  from the positions \<open>(15, -15, 15)\<close>, \<open>(-15, 15, 15)\<close>, \<open>(-15, -15, 15)\<close> and
  \<open>(15, 15, 15)\<close>, with roll zero, with the yaws 45, 225, 315 and 135 degrees, one each,
  and with the pitch \<open>radians 54.736\<close>, which is within \<open>0.00005\<close> of \<open>arctan (sqrt 2)\<close>,
  about \<open>0.955317\<close>.
\<close>

theorem isometric_poses:
  assumes "render_all_views env self w = (Inr self', w')"
  shows "drop 6 (map pose_of (new_renders w w')) =
           [(''standard'', (15, - 15, 15), (iso_angle, 0, radians 45)),
            (''iso_back'', (- 15, 15, 15), (iso_angle, 0, radians 225)),
            (''iso_left'', (- 15, - 15, 15), (iso_angle, 0, radians 315)),
            (''iso_right'', (15, 15, 15), (iso_angle, 0, radians 135))] \<and>
         iso_angle = radians (54736 / 1000) \<and>
         \<bar>iso_angle - arctan (sqrt 2)\<bar> < 5 / 100000"
proof -
  from render_all_views_log [OF assms]
  have "map pose_of (new_renders w w') = take 10 (orthographic_views @ iso_views)" by auto
  then have "drop 6 (map pose_of (new_renders w w')) = iso_views"
    by (simp add: orthographic_views_def iso_views_def)
  then show ?thesis
    using iso_angle_close by (simp add: iso_views_def iso_distance_def iso_angle_def)
qed

theorem isometric_poses_witness:
  "\<exists>self' w'. render_all_views env_ok blank_renderer empty_world = (Inr self', w') \<and>
     drop 6 (map pose_of (new_renders empty_world w')) =
           [(''standard'', (15, - 15, 15), (iso_angle, 0, radians 45)),
            (''iso_back'', (- 15, 15, 15), (iso_angle, 0, radians 225)),
            (''iso_left'', (- 15, - 15, 15), (iso_angle, 0, radians 315)),
            (''iso_right'', (15, 15, 15), (iso_angle, 0, radians 135))] \<and>
     iso_angle = radians (54736 / 1000) \<and>
     \<bar>iso_angle - arctan (sqrt 2)\<bar> < 5 / 100000"
proof -
  obtain self' w' where h: "render_all_views env_ok blank_renderer empty_world = (Inr self', w')"
    using render_all_views_succeeds [of env_ok, OF env_ok_renders] by blast
  show ?thesis using h isometric_poses [OF h] by blast
qed

section \<open>Paths\<close>

lemma rfind_absent: "c \<notin> set p \<Longrightarrow> rfind c p = - 1"
  by (simp add: rfind_def)

lemma rfind_last: "c \<notin> set e \<Longrightarrow> rfind c (s @ c # e) = int (length s)"
proof -
  assume a: "c \<notin> set e"
  have "takeWhile (\<lambda>x. x \<noteq> c) (rev e @ c # rev s) = rev e"
    using a by (simp add: takeWhile_append)
  then show ?thesis by (simp add: rfind_def)
qed

lemma basename_after_slash:
  "CHR ''/'' \<notin> set b \<Longrightarrow> basename (d @ CHR ''/'' # b) = b"
proof -
  assume a: "CHR ''/'' \<notin> set b"
  have "nat (int (length d) + 1) = Suc (length d)" by simp
  then show ?thesis using a by (simp add: basename_def rfind_last)
qed

lemma basename_no_slash: "CHR ''/'' \<notin> set (basename p)"
proof (cases "CHR ''/'' \<in> set p")
  case False
  then show ?thesis by (simp add: basename_def rfind_def)
next
  case True
  then obtain d b where "p = d @ CHR ''/'' # b" and "CHR ''/'' \<notin> set b"
    using split_list_last [of "CHR ''/''" p] by blast
  then show ?thesis by (simp add: basename_after_slash)
qed

lemma basename_plain: "CHR ''/'' \<notin> set b \<Longrightarrow> basename b = b"
  by (simp add: basename_def rfind_absent)

lemma splitext_stem:
  assumes "s \<noteq> []" "hd s \<noteq> CHR ''.''" "CHR ''/'' \<notin> set s"
    and "CHR ''.'' \<notin> set e" "CHR ''/'' \<notin> set e"
  shows "splitext (s @ CHR ''.'' # e) = (s, CHR ''.'' # e)"
proof -
  have sep: "rfind (CHR ''/'') (s @ CHR ''.'' # e) = - 1"
    using assms by (simp add: rfind_absent)
  have dot: "rfind (CHR ''.'') (s @ CHR ''.'' # e) = int (length s)"
    using assms by (simp add: rfind_last)
  have ex: "list_ex (\<lambda>c. c \<noteq> CHR ''.'') s"
    using assms(1,2) by (cases s) simp_all
  show ?thesis
    using ex by (simp add: splitext_def sep dot Let_def)
qed

section \<open>The files a job writes\<close>

lemma render_view_fields:
  assumes "render_view env name pos rot self w = (Inr self', w')"
  shows "output_dir self' = output_dir self" "obj_path self' = obj_path self"
    "filepath self' = view_file (output_dir self) name"
    "fs w' = (fs w)(view_file (output_dir self) name \<mapsto> File self')"
  using render_view_Inr [OF assms] by (simp_all add: view_file_def)

lemma render_views_files:
  "render_views env views self w = (res, w') \<Longrightarrow>
     (\<forall>p. p \<notin> set (map (\<lambda>v. view_file (output_dir self) (fst v)) views) \<longrightarrow> fs w' p = fs w p) \<and>
     (\<forall>self'. res = Inr self' \<longrightarrow>
        output_dir self' = output_dir self \<and> obj_path self' = obj_path self \<and>
        (\<exists>rs. rendered w' = rendered w @ rs \<and>
           map (\<lambda>r. filepath (snd r)) rs = map (\<lambda>v. view_file (output_dir self) (fst v)) views) \<and>
        (\<forall>p \<in> set (map (\<lambda>v. view_file (output_dir self) (fst v)) views).
           \<exists>img. fs w' p = Some (File img) \<and> obj_path img = obj_path self))"
proof (induction views arbitrary: self w)
  case Nil
  then show ?case by auto
next
  case (Cons v views)
  obtain name pos rot where v: "v = (name, pos, rot)" by (cases v)
  obtain r1 w1 where rv: "render_view env name pos rot self w = (r1, w1)"
    by (cases "render_view env name pos rot self w")
  show ?case
  proof (cases r1)
    case (Inl e)
    with Cons.prems rv v have "res = Inl e" "w' = w1" by auto
    moreover have "w1 = w" using rv Inl render_view_Inl by blast
    ultimately show ?thesis by simp
  next
    case (Inr self1)
    with Cons.prems rv v have rest: "render_views env views self1 w1 = (res, w')" by simp
    have rv': "render_view env name pos rot self w = (Inr self1, w1)" using rv Inr by simp
    note f = render_view_fields [OF rv']
    have r1: "rendered w1 = rendered w @ [(name, self1)]"
      using render_view_Inr(2) [OF rv'] .
    note IH = Cons.IH [OF rest, unfolded f(1) f(2)]
    have unchanged: "\<forall>p. p \<notin> set (map (\<lambda>v. view_file (output_dir self) (fst v)) (v # views))
                       \<longrightarrow> fs w' p = fs w p"
      using IH f(4) by (simp add: v)
    have success: "output_dir self' = output_dir self \<and> obj_path self' = obj_path self \<and>
        (\<exists>rs. rendered w' = rendered w @ rs \<and>
           map (\<lambda>r. filepath (snd r)) rs
             = map (\<lambda>v. view_file (output_dir self) (fst v)) (v # views)) \<and>
        (\<forall>p \<in> set (map (\<lambda>v. view_file (output_dir self) (fst v)) (v # views)).
           \<exists>img. fs w' p = Some (File img) \<and> obj_path img = obj_path self)"
      if res: "res = Inr self'" for self'
    proof -
      from IH res obtain rs where
        o: "output_dir self' = output_dir self" "obj_path self' = obj_path self"
        and rs: "rendered w' = rendered w1 @ rs"
        and paths: "map (\<lambda>r. filepath (snd r)) rs
                      = map (\<lambda>v. view_file (output_dir self) (fst v)) views"
        and files: "\<forall>p \<in> set (map (\<lambda>v. view_file (output_dir self) (fst v)) views).
           \<exists>img. fs w' p = Some (File img) \<and> obj_path img = obj_path self"
        by blast
      have log: "rendered w' = rendered w @ ((name, self1) # rs)"
        using rs r1 by simp
      have paths': "map (\<lambda>r. filepath (snd r)) ((name, self1) # rs)
                      = map (\<lambda>v. view_file (output_dir self) (fst v)) (v # views)"
        using paths f(3) by (simp add: v)
      have first: "\<exists>img. fs w' (view_file (output_dir self) name) = Some (File img)
                     \<and> obj_path img = obj_path self"
      proof (cases "view_file (output_dir self) name
                      \<in> set (map (\<lambda>v. view_file (output_dir self) (fst v)) views)")
        case True
        then show ?thesis using files by blast
      next
        case False
        then have "fs w' (view_file (output_dir self) name)
                     = fs w1 (view_file (output_dir self) name)"
          using IH by blast
        then show ?thesis using f(4) f(2) by simp
      qed
      show ?thesis
        using o log paths' files first by (auto simp: v)
    qed
    show ?thesis using unchanged success by blast
  qed
qed

lemma view_table_names: "map fst (orthographic_views @ iso_views) = view_names"
  by (simp add: orthographic_views_def iso_views_def view_names_def)

lemma render_views_unchanged:
  assumes "render_views env views self w = (res, w')"
    and "p \<notin> view_file (output_dir self) ` fst ` set views"
  shows "fs w' p = fs w p"
proof -
  have "p \<notin> set (map (\<lambda>v. view_file (output_dir self) (fst v)) views)"
    using assms(2) by (simp add: image_image)
  then show ?thesis using render_views_files [OF assms(1)] by blast
qed

lemma render_views_success:
  assumes "render_views env views self w = (Inr self', w')"
  shows "output_dir self' = output_dir self" "obj_path self' = obj_path self"
    and "\<exists>rs. rendered w' = rendered w @ rs \<and>
           map (\<lambda>r. filepath (snd r)) rs = map (view_file (output_dir self)) (map fst views)"
    and "\<forall>p \<in> view_file (output_dir self) ` fst ` set views.
           \<exists>img. fs w' p = Some (File img) \<and> obj_path img = obj_path self"
proof -
  note R = render_views_files [OF assms]
  show "output_dir self' = output_dir self" "obj_path self' = obj_path self"
    using R by blast+
  from R obtain rs where "rendered w' = rendered w @ rs"
    "map (\<lambda>r. filepath (snd r)) rs = map (\<lambda>v. view_file (output_dir self) (fst v)) views"
    by blast
  then show "\<exists>rs. rendered w' = rendered w @ rs \<and>
           map (\<lambda>r. filepath (snd r)) rs = map (view_file (output_dir self)) (map fst views)"
    by (intro exI [of _ rs]) (simp add: comp_def)
  have "\<forall>p \<in> set (map (\<lambda>v. view_file (output_dir self) (fst v)) views).
           \<exists>img. fs w' p = Some (File img) \<and> obj_path img = obj_path self"
    using R by blast
  then show "\<forall>p \<in> view_file (output_dir self) ` fst ` set views.
           \<exists>img. fs w' p = Some (File img) \<and> obj_path img = obj_path self"
    by (simp add: image_image)
qed

lemma view_names_split: "view_names = map fst orthographic_views @ map fst iso_views"
  using view_table_names by simp

lemma print_keeps: "fs (print line w) = fs w" "rendered (print line w) = rendered w"
  by (simp_all add: print_def)

lemma render_all_views_unchanged:
  assumes run: "render_all_views env self w = (res, w')"
    and p: "p \<notin> view_file (output_dir self) ` set view_names"
  shows "fs w' p = fs w p"
proof -
  have po: "p \<notin> view_file (output_dir self) ` fst ` set orthographic_views"
    and pi: "p \<notin> view_file (output_dir self) ` fst ` set iso_views"
    using p unfolding view_names_split by auto
  obtain r1 w1 where
    o: "render_views env orthographic_views self (print ortho_header w) = (r1, w1)"
    by (cases "render_views env orthographic_views self (print ortho_header w)")
  have a: "fs w1 p = fs w p"
    using render_views_unchanged [OF o po] by (simp only: print_keeps)
  show ?thesis
  proof (cases r1)
    case (Inl e)
    with run o have "w' = w1" by (simp add: render_all_views_def)
    then show ?thesis using a by simp
  next
    case (Inr self1)
    with run o have
      i: "render_views env iso_views self1 (print iso_header w1) = (res, w')"
      by (simp add: render_all_views_def)
    have od: "output_dir self1 = output_dir self"
      using render_views_success(1) [of env orthographic_views self _ self1 w1] o Inr by simp
    have "fs w' p = fs w1 p"
      using render_views_unchanged [OF i] pi by (simp only: od print_keeps)
    then show ?thesis using a by simp
  qed
qed

lemma render_all_views_success:
  assumes run: "render_all_views env self w = (Inr self', w')"
  shows "map (\<lambda>r. filepath (snd r)) (new_renders w w')
           = map (view_file (output_dir self)) view_names"
    and "\<forall>p \<in> view_file (output_dir self) ` set view_names.
           \<exists>img. fs w' p = Some (File img) \<and> obj_path img = obj_path self"
proof -
  obtain r1 w1 where
    o: "render_views env orthographic_views self (print ortho_header w) = (r1, w1)"
    by (cases "render_views env orthographic_views self (print ortho_header w)")
  obtain self1 where r1: "r1 = Inr self1"
    using run o by (cases r1) (simp_all add: render_all_views_def)
  have o': "render_views env orthographic_views self (print ortho_header w) = (Inr self1, w1)"
    using o r1 by simp
  have i: "render_views env iso_views self1 (print iso_header w1) = (Inr self', w')"
    using run o' by (simp add: render_all_views_def)
  note O = render_views_success [OF o']
  have od: "output_dir self1 = output_dir self" and op: "obj_path self1 = obj_path self"
    using O(1,2) by simp_all
  note I = render_views_success [OF i, unfolded od op]
  from O(3) obtain rs1 where
    rs1: "rendered w1 = rendered w @ rs1"
    and p1: "map (\<lambda>r. filepath (snd r)) rs1
               = map (view_file (output_dir self)) (map fst orthographic_views)"
    by (auto simp only: print_keeps)
  from I(3) obtain rs2 where
    rs2: "rendered w' = rendered w1 @ rs2"
    and p2: "map (\<lambda>r. filepath (snd r)) rs2
               = map (view_file (output_dir self)) (map fst iso_views)"
    by (auto simp only: print_keeps)
  have "new_renders w w' = rs1 @ rs2"
    by (simp add: new_renders_def rs1 rs2)
  then show "map (\<lambda>r. filepath (snd r)) (new_renders w w')
           = map (view_file (output_dir self)) view_names"
    by (simp only: view_names_split map_append p1 p2)
  show "\<forall>p \<in> view_file (output_dir self) ` set view_names.
           \<exists>img. fs w' p = Some (File img) \<and> obj_path img = obj_path self"
  proof
    fix p assume pin: "p \<in> view_file (output_dir self) ` set view_names"
    show "\<exists>img. fs w' p = Some (File img) \<and> obj_path img = obj_path self"
    proof (cases "p \<in> view_file (output_dir self) ` fst ` set iso_views")
      case True
      then show ?thesis using I(4) by blast
    next
      case False
      have "fs w' p = fs w1 p"
        using render_views_unchanged [OF i] False by (simp only: od print_keeps)
      moreover have "p \<in> view_file (output_dir self) ` fst ` set orthographic_views"
        using pin False unfolding view_names_split by auto
      ultimately show ?thesis using O(4) by auto
    qed
  qed
qed

lemma setup_scene_fields:
  assumes "setup_scene env p d r bg = Inr self"
  shows "obj_path self = p" "output_dir self = d"
  using assms
  by (auto simp: setup_scene_def auto_adjust_camera_def Let_def
      split: option.splits sum.splits list.splits prod.splits)

lemma makedirs_True:
  assumes "makedirs True d files = Inr files'"
  shows "files' d = Some Dir" "\<forall>p. p \<noteq> d \<longrightarrow> files' p = files p"
  using assms by (auto simp: makedirs_def split: option.splits node.splits)

lemma makedirs_existing: "files d = Some Dir \<Longrightarrow> makedirs True d files = Inr files"
  by (simp add: makedirs_def)

lemma makedirs_succeeds:
  "(\<forall>img. files d \<noteq> Some (File img)) \<Longrightarrow> \<exists>files'. makedirs True d files = Inr files'"
  by (auto simp: makedirs_def split: option.splits node.splits)

lemma path_join_relative:
  "b \<noteq> [] \<Longrightarrow> hd b \<noteq> CHR ''/'' \<Longrightarrow>
     path_join a b = (if a = [] \<or> last a = CHR ''/'' then a @ b else a @ ''/'' @ b)"
  by (simp add: path_join_def)

lemma view_name_relative:
  "v \<in> set view_names \<Longrightarrow> v @ ''.png'' \<noteq> [] \<and> hd (v @ ''.png'') \<noteq> CHR ''/''"
  by (auto simp: view_names_def)

lemma view_file_not_dir: "v \<in> set view_names \<Longrightarrow> view_file d v \<noteq> d"
  using view_name_relative [of v] by (auto simp: view_file_def path_join_relative)

lemma job_success:
  assumes "process_single_model_try env (p, out, r) w = (Inr u, w')"
  obtains files self self' where
    "makedirs True (model_output_dir out p) (fs w) = Inr files"
    "setup_scene env p (model_output_dir out p) r (1, 1, 1) = Inr self"
    "render_all_views env self (w\<lparr> fs := files \<rparr>) = (Inr self', w')"
  using assms
  by (auto simp: process_single_model_try_def Let_def
      split: sum.splits prod.splits)

lemma job_files:
  assumes "process_single_model_try env (p, out, r) w = (Inr u, w')"
  defines "d \<equiv> model_output_dir out p"
  shows "map (\<lambda>r. filepath (snd r)) (new_renders w w') = map (view_file d) view_names"
    and "fs w' d = Some Dir"
    and "\<forall>v \<in> set view_names. \<exists>img. fs w' (view_file d v) = Some (File img) \<and> obj_path img = p"
    and "\<forall>q. q \<noteq> d \<and> q \<notin> view_file d ` set view_names \<longrightarrow> fs w' q = fs w q"
proof -
  from job_success [OF assms(1)] obtain files self self' where
    mk: "makedirs True d (fs w) = Inr files"
    and su: "setup_scene env p d r (1, 1, 1) = Inr self"
    and run: "render_all_views env self (w\<lparr> fs := files \<rparr>) = (Inr self', w')"
    unfolding d_def by blast
  have od: "output_dir self = d" and op: "obj_path self = p"
    using setup_scene_fields [OF su] by simp_all
  note S = render_all_views_success [OF run, unfolded od op]
  have nr: "new_renders (w\<lparr> fs := files \<rparr>) w' = new_renders w w'"
    by (simp add: new_renders_def)
  show "map (\<lambda>r. filepath (snd r)) (new_renders w w') = map (view_file d) view_names"
    using S(1) by (simp only: nr)
  have dn: "d \<notin> view_file d ` set view_names"
    using view_file_not_dir [of _ d] by force
  have "fs w' d = fs (w\<lparr> fs := files \<rparr>) d"
    using render_all_views_unchanged [OF run] dn by (simp only: od)
  then show "fs w' d = Some Dir" using makedirs_True(1) [OF mk] by simp
  show "\<forall>v \<in> set view_names. \<exists>img. fs w' (view_file d v) = Some (File img) \<and> obj_path img = p"
    using S(2) by blast
  show "\<forall>q. q \<noteq> d \<and> q \<notin> view_file d ` set view_names \<longrightarrow> fs w' q = fs w q"
  proof (intro allI impI)
    fix q assume q: "q \<noteq> d \<and> q \<notin> view_file d ` set view_names"
    then have "q \<notin> view_file (output_dir self) ` set view_names" by (simp add: od)
    then have "fs w' q = fs (w\<lparr> fs := files \<rparr>) q"
      by (rule render_all_views_unchanged [OF run])
    then show "fs w' q = fs w q" using makedirs_True(2) [OF mk] q by simp
  qed
qed

lemma model_output_dir_plain:
  assumes "out \<noteq> []" "last out \<noteq> CHR ''/''"
    and "basename p = stem @ ''.obj''" "stem \<noteq> []" "hd stem \<noteq> CHR ''.''"
  shows "model_output_dir out p = out @ ''/'' @ stem"
    and "v \<in> set view_names \<Longrightarrow>
           view_file (model_output_dir out p) v = out @ ''/'' @ stem @ ''/'' @ v @ ''.png''"
proof -
  have ns: "CHR ''/'' \<notin> set stem"
    using basename_no_slash [of p] assms(3) by simp
  have "splitext (stem @ CHR ''.'' # ''obj'') = (stem, CHR ''.'' # ''obj'')"
    using assms(4,5) ns by (intro splitext_stem) simp_all
  then have st: "fst (splitext (basename p)) = stem" using assms(3) by simp
  have h: "hd stem \<noteq> CHR ''/''" and l: "last stem \<noteq> CHR ''/''"
    using ns assms(4) hd_in_set last_in_set by metis+
  show d: "model_output_dir out p = out @ ''/'' @ stem"
    using assms(1,2,4) h by (simp add: model_output_dir_def st path_join_relative)
  assume v: "v \<in> set view_names"
  have "last (out @ ''/'' @ stem) \<noteq> CHR ''/''" using l assms(4) by simp
  then show "view_file (model_output_dir out p) v = out @ ''/'' @ stem @ ''/'' @ v @ ''.png''"
    using view_name_relative [OF v] by (simp add: d view_file_def path_join_relative)
qed

lemma setup_scene_succeeds:
  assumes "configure_engine env = None" "import_scene_obj env p = Inr (obj # objs)"
    and "decorate_scene env = None"
  shows "\<exists>self. setup_scene env p d r bg = Inr self"
  using assms
  by (simp add: setup_scene_def reset_model_transform_shape Let_def split: prod.splits)

lemma job_succeeds:
  assumes "configure_engine env = None" "import_scene_obj env p = Inr (obj # objs)"
    and "decorate_scene env = None" "\<And>s. render_error env s = None"
    and "\<forall>img. fs w (model_output_dir out p) \<noteq> Some (File img)"
  shows "\<exists>w'. process_single_model_try env (p, out, r) w = (Inr (), w')"
proof -
  obtain files where mk: "makedirs True (model_output_dir out p) (fs w) = Inr files"
    using makedirs_succeeds [of "fs w" "model_output_dir out p"] assms(5) by blast
  obtain self where su: "setup_scene env p (model_output_dir out p) r (1, 1, 1) = Inr self"
    using setup_scene_succeeds [OF assms(1-3)] by blast
  obtain self' w' where "render_all_views env self (w\<lparr> fs := files \<rparr>) = (Inr self', w')"
    using render_all_views_succeeds [of env, OF assms(4)] by blast
  then show ?thesis
    using mk su by (simp add: process_single_model_try_def Let_def)
qed

lemma env_ok_fields:
  "configure_engine env_ok = None" "import_scene_obj env_ok p = Inr (box_object # [])"
  "decorate_scene env_ok = None" "render_error env_ok s = None"
  by (simp_all add: env_ok_def)

lemma example_dirs:
  "model_output_dir ''out'' ''in/x/a.obj'' = ''out/a''"
  "model_output_dir ''out'' ''in/y/a.obj'' = ''out/a''"
  "basename ''in/x/a.obj'' = ''a.obj''" "basename ''in/y/a.obj'' = ''a.obj''"
  by (simp_all add: model_output_dir_def basename_def splitext_def rfind_def path_join_def Let_def)

lemma example_front_file: "view_file ''out/a'' ''front'' = ''out/a/front.png''"
  by (simp add: view_file_def path_join_def)

lemma example_other_path: "''out/b'' \<noteq> ''out/a'' \<and> ''out/b'' \<notin> view_file ''out/a'' ` set view_names"
  by (simp add: view_names_def view_file_def path_join_def)

lemma example_plain_paths: "map (\<lambda>v. ''out'' @ ''/'' @ ''a'' @ ''/'' @ v @ ''.png'') view_names =
       [''out/a/front.png'', ''out/a/back.png'', ''out/a/right.png'', ''out/a/left.png'',
        ''out/a/top.png'', ''out/a/bottom.png'', ''out/a/standard.png'',
        ''out/a/iso_back.png'', ''out/a/iso_left.png'', ''out/a/iso_right.png'']"
  by (simp add: view_names_def)

lemma example_job_succeeds: "\<exists>w'. process_single_model_try env_ok (''in/x/a.obj'', ''out'', 512) empty_world = (Inr (), w')"
proof -
  have free: "\<forall>img. fs empty_world (model_output_dir ''out'' ''in/x/a.obj'') \<noteq> Some (File img)"
    by (simp add: empty_world_def)
  show ?thesis
    using free by (rule job_succeeds [OF env_ok_fields])
qed

text \<open>
  C8. When the job of an input file completes, the views were written, in order, to
  \<open>view_file d v\<close> for the ten view names \<open>v\<close>, where \<open>d\<close> joins the output directory
  and the base name of the input file without its extension; \<open>d\<close> is a directory, each of
  the ten paths holds an image of this model, and nothing else in the file system has
  changed. Creating \<open>d\<close> again succeeds and changes nothing. For an output directory
  without a trailing slash and a file \<open>stem.obj\<close> whose stem does not start with a dot,
  the ten paths are \<open>output_dir/stem/view.png\<close>.
\<close>

theorem output_layout:
  assumes "process_single_model_try env (p, out, r) w = (Inr (), w')"
  shows "map (\<lambda>r. filepath (snd r)) (new_renders w w')
           = map (view_file (model_output_dir out p)) view_names \<and>
         fs w' (model_output_dir out p) = Some Dir \<and>
         (\<forall>v \<in> set view_names.
            \<exists>img. fs w' (view_file (model_output_dir out p) v) = Some (File img) \<and>
                  obj_path img = p) \<and>
         (\<forall>q. q \<noteq> model_output_dir out p \<and>
               q \<notin> view_file (model_output_dir out p) ` set view_names \<longrightarrow> fs w' q = fs w q) \<and>
         makedirs True (model_output_dir out p) (fs w') = Inr (fs w') \<and>
         (out \<noteq> [] \<and> last out \<noteq> CHR ''/'' \<and> basename p = stem @ ''.obj'' \<and> stem \<noteq> [] \<and>
          hd stem \<noteq> CHR ''.'' \<longrightarrow>
            map (\<lambda>r. filepath (snd r)) (new_renders w w')
              = map (\<lambda>v. out @ ''/'' @ stem @ ''/'' @ v @ ''.png'') view_names)"
proof -
  note J = job_files [OF assms]
  have plain: "map (\<lambda>r. filepath (snd r)) (new_renders w w')
              = map (\<lambda>v. out @ ''/'' @ stem @ ''/'' @ v @ ''.png'') view_names"
    if "out \<noteq> [] \<and> last out \<noteq> CHR ''/'' \<and> basename p = stem @ ''.obj'' \<and> stem \<noteq> [] \<and>
          hd stem \<noteq> CHR ''.''"
  proof -
    have "map (view_file (model_output_dir out p)) view_names
            = map (\<lambda>v. out @ ''/'' @ stem @ ''/'' @ v @ ''.png'') view_names"
      using that by (intro map_cong refl model_output_dir_plain(2)) simp_all
    then show ?thesis using J(1) by simp
  qed
  have again: "makedirs True (model_output_dir out p) (fs w') = Inr (fs w')"
    using J(2) by (rule makedirs_existing)
  show ?thesis
    using J(1) J(2) J(3) J(4) again plain by (intro conjI impI)
qed

theorem output_layout_witness:
  "\<exists>w'. process_single_model_try env_ok (''in/x/a.obj'', ''out'', 512) empty_world = (Inr (), w') \<and>
     map (\<lambda>r. filepath (snd r)) (new_renders empty_world w') =
       [''out/a/front.png'', ''out/a/back.png'', ''out/a/right.png'', ''out/a/left.png'',
        ''out/a/top.png'', ''out/a/bottom.png'', ''out/a/standard.png'',
        ''out/a/iso_back.png'', ''out/a/iso_left.png'', ''out/a/iso_right.png''] \<and>
     fs w' ''out/a'' = Some Dir \<and>
     (\<exists>img. fs w' ''out/a/front.png'' = Some (File img) \<and> obj_path img = ''in/x/a.obj'') \<and>
     fs w' ''out/b'' = None \<and>
     makedirs True ''out/a'' (fs w') = Inr (fs w')"
proof -
  have free: "\<forall>img. fs empty_world (model_output_dir ''out'' ''in/x/a.obj'') \<noteq> Some (File img)"
    by (simp add: empty_world_def)
  obtain w' where
    h: "process_single_model_try env_ok (''in/x/a.obj'', ''out'', 512) empty_world = (Inr (), w')"
    using job_succeeds [OF env_ok_fields free] by blast
  note L = output_layout [OF h, of "''a''"]
  have d: "model_output_dir ''out'' ''in/x/a.obj'' = ''out/a''" by (rule example_dirs(1))
  have c2: "fs w' ''out/a'' = Some Dir"
    using L [THEN conjunct2, THEN conjunct1] by (simp only: d)
  have c3: "\<forall>v \<in> set view_names.
            \<exists>img. fs w' (view_file ''out/a'' v) = Some (File img) \<and> obj_path img = ''in/x/a.obj''"
    using L [THEN conjunct2, THEN conjunct2, THEN conjunct1] by (simp only: d)
  have c4: "\<forall>q. q \<noteq> ''out/a'' \<and> q \<notin> view_file ''out/a'' ` set view_names
               \<longrightarrow> fs w' q = fs empty_world q"
    using L [THEN conjunct2, THEN conjunct2, THEN conjunct2, THEN conjunct1] by (simp only: d)
  have c5: "makedirs True ''out/a'' (fs w') = Inr (fs w')"
    using L [THEN conjunct2, THEN conjunct2, THEN conjunct2, THEN conjunct2, THEN conjunct1]
    by (simp only: d)
  have hyp: "''out'' \<noteq> [] \<and> last ''out'' \<noteq> CHR ''/'' \<and> basename ''in/x/a.obj'' = ''a'' @ ''.obj'' \<and>
             ''a'' \<noteq> [] \<and> hd ''a'' \<noteq> CHR ''.''"
    by (simp add: example_dirs(3))
  have c6: "map (\<lambda>r. filepath (snd r)) (new_renders empty_world w')
              = map (\<lambda>v. ''out'' @ ''/'' @ ''a'' @ ''/'' @ v @ ''.png'') view_names"
    using L [THEN conjunct2, THEN conjunct2, THEN conjunct2, THEN conjunct2, THEN conjunct2] hyp
    by (rule mp)
  have paths: "map (\<lambda>r. filepath (snd r)) (new_renders empty_world w') =
       [''out/a/front.png'', ''out/a/back.png'', ''out/a/right.png'', ''out/a/left.png'',
        ''out/a/top.png'', ''out/a/bottom.png'', ''out/a/standard.png'',
        ''out/a/iso_back.png'', ''out/a/iso_left.png'', ''out/a/iso_right.png'']"
    by (simp only: c6 example_plain_paths)
  have fr: "''front'' \<in> set view_names" by (simp add: view_names_def)
  have front: "\<exists>img. fs w' ''out/a/front.png'' = Some (File img) \<and> obj_path img = ''in/x/a.obj''"
    using c3 [rule_format, OF fr] by (simp only: example_front_file)
  have "fs w' ''out/b'' = fs empty_world ''out/b''"
    using c4 [rule_format, OF example_other_path] .
  then have b: "fs w' ''out/b'' = None" by (simp add: empty_world_def)
  show ?thesis
    using h paths c2 front b c5 by (intro exI [of _ w'] conjI)
qed

section \<open>Input files that share a base name\<close>

lemma model_output_dir_basename:
  "basename p = basename q \<Longrightarrow> model_output_dir out p = model_output_dir out q"
  by (simp add: model_output_dir_def)

text \<open>
  C10. The output directory of a job depends on the base name of the input file only, so
  two input files with the same base name get the same directory and the same ten paths.
  When their jobs run one after the other and both complete, each of the ten paths holds
  an image of the first model after the first job and an image of the second model after
  the second: the later job has replaced the files of the earlier one.
\<close>

theorem same_basename_collides:
  assumes same: "basename p = basename q"
    and first: "process_single_model_try env (p, out, r) w = (Inr (), w1)"
    and second: "process_single_model_try env (q, out, r) w1 = (Inr (), w2)"
  shows "model_output_dir out p = model_output_dir out q \<and>
         (\<forall>v \<in> set view_names.
            \<exists>img1 img2.
              fs w1 (view_file (model_output_dir out p) v) = Some (File img1) \<and> obj_path img1 = p \<and>
              fs w2 (view_file (model_output_dir out p) v) = Some (File img2) \<and> obj_path img2 = q \<and>
              (p \<noteq> q \<longrightarrow> img2 \<noteq> img1))"
proof -
  have d: "model_output_dir out p = model_output_dir out q"
    using same by (rule model_output_dir_basename)
  note F = job_files(3) [OF first]
  note S = job_files(3) [OF second, folded d]
  have "\<exists>img1 img2.
              fs w1 (view_file (model_output_dir out p) v) = Some (File img1) \<and> obj_path img1 = p \<and>
              fs w2 (view_file (model_output_dir out p) v) = Some (File img2) \<and> obj_path img2 = q \<and>
              (p \<noteq> q \<longrightarrow> img2 \<noteq> img1)"
    if v: "v \<in> set view_names" for v
  proof -
    obtain img1 where 1: "fs w1 (view_file (model_output_dir out p) v) = Some (File img1)"
      "obj_path img1 = p" using F v by blast
    obtain img2 where 2: "fs w2 (view_file (model_output_dir out p) v) = Some (File img2)"
      "obj_path img2 = q" using S v by blast
    have "p \<noteq> q \<longrightarrow> img2 \<noteq> img1" using 1(2) 2(2) by auto
    then show ?thesis using 1 2 by blast
  qed
  then show ?thesis using d by blast
qed

theorem same_basename_collides_witness:
  "basename ''in/x/a.obj'' = basename ''in/y/a.obj'' \<and> ''in/x/a.obj'' \<noteq> ''in/y/a.obj'' \<and>
   (\<exists>w1 w2.
      process_single_model_try env_ok (''in/x/a.obj'', ''out'', 512) empty_world = (Inr (), w1) \<and>
      process_single_model_try env_ok (''in/y/a.obj'', ''out'', 512) w1 = (Inr (), w2) \<and>
      model_output_dir ''out'' ''in/x/a.obj'' = model_output_dir ''out'' ''in/y/a.obj'' \<and>
      (\<exists>img1 img2.
         fs w1 ''out/a/front.png'' = Some (File img1) \<and> obj_path img1 = ''in/x/a.obj'' \<and>
         fs w2 ''out/a/front.png'' = Some (File img2) \<and> obj_path img2 = ''in/y/a.obj'' \<and>
         img2 \<noteq> img1))"
proof -
  have same: "basename ''in/x/a.obj'' = basename ''in/y/a.obj''"
    by (simp only: example_dirs)
  have diff: "''in/x/a.obj'' \<noteq> ''in/y/a.obj''" by simp
  obtain w1 where
    j1: "process_single_model_try env_ok (''in/x/a.obj'', ''out'', 512) empty_world = (Inr (), w1)"
    using example_job_succeeds by (rule exE)
  have "fs w1 (model_output_dir ''out'' ''in/x/a.obj'') = Some Dir"
    using j1 by (rule job_files(2))
  then have "fs w1 (model_output_dir ''out'' ''in/y/a.obj'') = Some Dir"
    by (simp only: example_dirs)
  then have free: "\<forall>img. fs w1 (model_output_dir ''out'' ''in/y/a.obj'') \<noteq> Some (File img)"
    by simp
  obtain w2 where
    j2: "process_single_model_try env_ok (''in/y/a.obj'', ''out'', 512) w1 = (Inr (), w2)"
    using job_succeeds [OF env_ok_fields free] by (rule exE)
  note T = same_basename_collides [OF same j1 j2]
  have fr: "''front'' \<in> set view_names" by (simp add: view_names_def)
  have "\<exists>img1 img2.
         fs w1 (view_file (model_output_dir ''out'' ''in/x/a.obj'') ''front'') = Some (File img1) \<and>
         obj_path img1 = ''in/x/a.obj'' \<and>
         fs w2 (view_file (model_output_dir ''out'' ''in/x/a.obj'') ''front'') = Some (File img2) \<and>
         obj_path img2 = ''in/y/a.obj'' \<and>
         (''in/x/a.obj'' \<noteq> ''in/y/a.obj'' \<longrightarrow> img2 \<noteq> img1)"
    using T [THEN conjunct2, rule_format, OF fr] .
  then obtain img1 img2 where
    a: "fs w1 (view_file (model_output_dir ''out'' ''in/x/a.obj'') ''front'') = Some (File img1)"
    and b: "obj_path img1 = ''in/x/a.obj''"
    and c: "fs w2 (view_file (model_output_dir ''out'' ''in/x/a.obj'') ''front'') = Some (File img2)"
    and d: "obj_path img2 = ''in/y/a.obj''"
    and e: "''in/x/a.obj'' \<noteq> ''in/y/a.obj'' \<longrightarrow> img2 \<noteq> img1"
    by (elim exE conjE)
  have a': "fs w1 ''out/a/front.png'' = Some (File img1)"
    using a by (simp only: example_dirs example_front_file)
  have c': "fs w2 ''out/a/front.png'' = Some (File img2)"
    using c by (simp only: example_dirs example_front_file)
  have e': "img2 \<noteq> img1" using e diff by (rule mp)
  have inner: "\<exists>img1 img2.
         fs w1 ''out/a/front.png'' = Some (File img1) \<and> obj_path img1 = ''in/x/a.obj'' \<and>
         fs w2 ''out/a/front.png'' = Some (File img2) \<and> obj_path img2 = ''in/y/a.obj'' \<and>
         img2 \<noteq> img1"
    using a' b c' d e' by (intro exI [of _ img1] exI [of _ img2] conjI)
  show ?thesis
    using same diff j1 j2 T [THEN conjunct1] inner
    by (intro conjI exI [of _ w1] exI [of _ w2])
qed

section \<open>The batch\<close>



lemma pool_map_length: "length (fst (pool_map f as w)) = length as"
proof (induction as arbitrary: w)
  case Nil
  then show ?case by simp
next
  case (Cons a as)
  obtain r w1 where t: "f a w = (r, w1)" by (cases "f a w")
  obtain rs w2 where r: "pool_map f as w1 = (rs, w2)" by (cases "pool_map f as w1")
  show ?case using Cons.IH [of w1] by (simp add: t r)
qed

lemma pool_map_process:
  "pool_map (process_single_model env) as w =
     (map (\<lambda>(a, oc). result_line (fst a) oc)
        (zip as (fst (pool_map (process_single_model_try env) as w))),
      snd (pool_map (process_single_model_try env) as w))"
proof (induction as arbitrary: w)
  case Nil
  then show ?case by simp
next
  case (Cons a as)
  obtain oc w1 where t: "process_single_model_try env a w = (oc, w1)"
    by (cases "process_single_model_try env a w")
  obtain ocs w2 where r: "pool_map (process_single_model_try env) as w1 = (ocs, w2)"
    by (cases "pool_map (process_single_model_try env) as w1")
  have p: "process_single_model env a w = (result_line (fst a) oc, w1)"
    by (simp add: process_single_model_def t)
  show ?case
    using Cons.IH [of w1] by (simp add: t r p)
qed



lemma print_all_stdout: "stdout (print_all rs w) = stdout w @ rs"
  by (induction rs arbitrary: w) (simp_all add: print_def)

lemma zip_job_args:
  "map (\<lambda>(a, oc). result_line (fst a) oc) (zip (map (\<lambda>f. (f, out, r)) files) ocs)
     = map (\<lambda>(f, oc). result_line f oc) (zip files ocs)"
  by (simp add: zip_map1 split_beta comp_def)

lemma batch_render_results:
  fixes env input_dir out r np w
  defines "obj_files \<equiv> glob_recursive env (path_join input_dir ''**/*.obj'')"
  defines "outcomes \<equiv> batch_outcomes env input_dir out r np w"
  assumes pool: "case np of None \<Rightarrow> 1 \<le> cpu_count env | Some n \<Rightarrow> 1 \<le> n"
  shows "\<exists>w'. batch_render env input_dir out r np w
                 = (Inr (map (\<lambda>(f, oc). result_line f oc) (zip obj_files outcomes)), w') \<and>
              (\<exists>earlier. stdout w'
                 = earlier @ map (\<lambda>(f, oc). result_line f oc) (zip obj_files outcomes))"
    and "length outcomes = length obj_files"
proof -
  define n where "n = (case np of None \<Rightarrow> cpu_count env | Some n \<Rightarrow> n)"
  define w0 where "w0 = print (start_prefix @ str_int n @ start_suffix) w"
  define args where "args = map (\<lambda>f. (f, out, r)) obj_files"
  have n1: "\<not> n < 1" using pool by (simp add: n_def split: option.splits)
  have oc: "outcomes = fst (pool_map (process_single_model_try env) args w0)"
    by (simp add: outcomes_def batch_outcomes_def job_outcomes_def Let_def obj_files_def
        n_def w0_def args_def)
  show len: "length outcomes = length obj_files"
    by (simp add: oc pool_map_length args_def)
  show "\<exists>w'. batch_render env input_dir out r np w
                 = (Inr (map (\<lambda>(f, oc). result_line f oc) (zip obj_files outcomes)), w') \<and>
              (\<exists>earlier. stdout w'
                 = earlier @ map (\<lambda>(f, oc). result_line f oc) (zip obj_files outcomes))"
  proof (cases "obj_files = []")
    case True
    then have "outcomes = []" using len by simp
    then show ?thesis
      using True by (simp add: batch_render_def Let_def obj_files_def [symmetric])
  next
    case False
    let ?results = "map (\<lambda>(f, oc). result_line f oc) (zip obj_files outcomes)"
    let ?w2 = "snd (pool_map (process_single_model_try env) args w0)"
    have pm: "pool_map (process_single_model env) args w0 = (?results, ?w2)"
      unfolding pool_map_process oc args_def zip_job_args ..
    have "batch_render env input_dir out r np w = (Inr ?results, print_all ?results ?w2)"
      using False n1 pm
      by (simp add: batch_render_def Let_def obj_files_def [symmetric] n_def [symmetric]
          w0_def [symmetric] args_def [symmetric])
    moreover have "stdout (print_all ?results ?w2) = stdout ?w2 @ ?results"
      by (rule print_all_stdout)
    ultimately show ?thesis by blast
  qed
qed


lemma batch_render_returned:
  assumes "batch_render env input_dir out r np w = (Inr results, w')"
    and "glob_recursive env (path_join input_dir ''**/*.obj'') \<noteq> []"
  shows "case np of None \<Rightarrow> 1 \<le> cpu_count env | Some n \<Rightarrow> 1 \<le> n"
  using assms
  by (auto simp: batch_render_def Let_def split: option.splits if_splits prod.splits)

text \<open>
  C9. Whenever a batch returns, its results are in the order in which the input files
  were found: there is one result per file, the result at each position is the line of
  the job of the file at that position and names that file, and the results are the last
  lines printed, in the same order.
\<close>

theorem results_in_discovery_order:
  fixes env input_dir out r np w
  defines "obj_files \<equiv> glob_recursive env (path_join input_dir ''**/*.obj'')"
  defines "outcomes \<equiv> batch_outcomes env input_dir out r np w"
  assumes run: "batch_render env input_dir out r np w = (Inr results, w')"
  shows "length results = length obj_files \<and>
         (\<forall>k < length obj_files.
            results ! k = result_line (obj_files ! k) (outcomes ! k) \<and>
            (starts_with (success_prefix @ obj_files ! k) (results ! k) \<or>
             starts_with (failure_prefix @ obj_files ! k @ '': '') (results ! k))) \<and>
         (\<exists>earlier. stdout w' = earlier @ results)"
proof (cases "obj_files = []")
  case True
  then have "results = []"
    using run by (simp add: batch_render_def Let_def obj_files_def [symmetric])
  then show ?thesis using True by simp
next
  case False
  let ?results = "map (\<lambda>(f, oc). result_line f oc) (zip obj_files outcomes)"
  have pool: "case np of None \<Rightarrow> 1 \<le> cpu_count env | Some n \<Rightarrow> 1 \<le> n"
    using run False unfolding obj_files_def by (rule batch_render_returned)
  note B = batch_render_results [OF pool, of input_dir out r w,
      folded obj_files_def outcomes_def]
  from B(1) obtain w'' where
    run': "batch_render env input_dir out r np w = (Inr ?results, w'')"
    and printed': "\<exists>earlier. stdout w'' = earlier @ ?results"
    by blast
  have res: "results = ?results" and w: "w' = w''" using run run' by simp_all
  have len: "length obj_files = length outcomes" using B(2) by simp
  have names: "starts_with (success_prefix @ f) (result_line f oc) \<or>
               starts_with (failure_prefix @ f @ '': '') (result_line f oc)" for f oc
    by (cases oc) (simp_all add: starts_with_def result_line_def)
  have nth: "?results ! k = result_line (obj_files ! k) (outcomes ! k)"
    if "k < length obj_files" for k
    using that len by simp
  have each: "\<forall>k < length obj_files.
              ?results ! k = result_line (obj_files ! k) (outcomes ! k) \<and>
              (starts_with (success_prefix @ obj_files ! k) (?results ! k) \<or>
               starts_with (failure_prefix @ obj_files ! k @ '': '') (?results ! k))"
    using nth names by simp
  have "length ?results = length obj_files" using len by simp
  then show ?thesis
    using each printed' unfolding res w by (intro conjI)
qed

lemma env_mixed_fields:
  "configure_engine env_mixed = None"
  "import_scene_obj env_mixed ''in/x/a.obj'' = Inr (box_object # [])"
  "decorate_scene env_mixed = None" "render_error env_mixed s = None"
  by (simp_all add: env_mixed_def)

lemma env_mixed_batch:
  "glob_recursive env_mixed pattern = [''in/x/a.obj'', ''in/y/b.obj'']"
  "cpu_count env_mixed = 4"
  "import_scene_obj env_mixed ''in/y/b.obj'' = Inl (RuntimeError ''cannot read file'')"
  by (simp_all add: env_mixed_def)

lemma example_dir_b: "model_output_dir ''out'' ''in/y/b.obj'' = ''out/b''"
  by (simp add: model_output_dir_def basename_def splitext_def rfind_def path_join_def Let_def)

lemma example_outcomes:
  assumes "fs w ''out/a'' = None" "fs w ''out/b'' = None"
  shows "job_outcomes env_mixed [(''in/x/a.obj'', ''out'', 512), (''in/y/b.obj'', ''out'', 512)] w
           = [Inr (), Inl (RuntimeError ''cannot read file'')]"
proof -
  have free: "\<forall>img. fs w (model_output_dir ''out'' ''in/x/a.obj'') \<noteq> Some (File img)"
    using assms(1) by (simp add: example_dirs)
  obtain w1 where
    j1: "process_single_model_try env_mixed (''in/x/a.obj'', ''out'', 512) w = (Inr (), w1)"
    using job_succeeds [OF env_mixed_fields free] by (rule exE)
  have "fs w1 ''out/b'' = fs w ''out/b''"
    using job_files(4) [OF j1, unfolded example_dirs, rule_format, OF example_other_path] .
  then have b: "fs w1 ''out/b'' = None" using assms(2) by simp
  have mk: "makedirs True ''out/b'' (fs w1) = Inr ((fs w1)(''out/b'' \<mapsto> Dir))"
    by (simp add: makedirs_def b)
  have su: "setup_scene env_mixed ''in/y/b.obj'' ''out/b'' 512 (1, 1, 1)
              = Inl (RuntimeError ''cannot read file'')"
    by (simp add: setup_scene_def env_mixed_fields env_mixed_batch)
  have j2: "process_single_model_try env_mixed (''in/y/b.obj'', ''out'', 512) w1
              = (Inl (RuntimeError ''cannot read file''), w1\<lparr> fs := (fs w1)(''out/b'' \<mapsto> Dir) \<rparr>)"
    by (simp add: process_single_model_try_def example_dir_b mk su)
  show ?thesis
    by (simp add: job_outcomes_def j1 j2)
qed

lemma example_batch_outcomes:
  assumes "fs w ''out/a'' = None" "fs w ''out/b'' = None"
  shows "batch_outcomes env_mixed ''in'' ''out'' 512 None w
           = [Inr (), Inl (RuntimeError ''cannot read file'')]"
proof -
  let ?w0 = "print (start_prefix @ str_int 4 @ start_suffix) w"
  have "fs ?w0 ''out/a'' = None" "fs ?w0 ''out/b'' = None"
    using assms by (simp_all only: print_keeps)
  then have "job_outcomes env_mixed
               [(''in/x/a.obj'', ''out'', 512), (''in/y/b.obj'', ''out'', 512)] ?w0
             = [Inr (), Inl (RuntimeError ''cannot read file'')]"
    by (rule example_outcomes)
  then show ?thesis
    by (simp add: batch_outcomes_def env_mixed_batch)
qed


lemma example_start_world:
  "fs (empty_world\<lparr> fs := (fs empty_world)(''out'' \<mapsto> Dir) \<rparr>) ''out/a'' = None"
  "fs (empty_world\<lparr> fs := (fs empty_world)(''out'' \<mapsto> Dir) \<rparr>) ''out/b'' = None"
  "fs empty_world ''out/a'' = None" "fs empty_world ''out/b'' = None"
  by (simp_all add: empty_world_def)


theorem results_in_discovery_order_witness:
  "\<exists>results w'.
      batch_render env_mixed ''in'' ''out'' 512 None empty_world = (Inr results, w') \<and>
      length results = 2 \<and>
      results ! 0 = success_prefix @ ''in/x/a.obj'' \<and>
      results ! 1 = failure_prefix @ ''in/y/b.obj'' @ '': '' @ ''cannot read file'' \<and>
      (\<exists>earlier. stdout w' = earlier @ results)"
proof -
  have pool: "case None of None \<Rightarrow> 1 \<le> cpu_count env_mixed | Some n \<Rightarrow> 1 \<le> n"
    by (simp add: env_mixed_batch)
  obtain results w' where
    run: "batch_render env_mixed ''in'' ''out'' 512 None empty_world = (Inr results, w')"
    using batch_render_results(1) [OF pool, of "''in''" "''out''" 512 empty_world]
    by (elim exE conjE) (rule that)
  have oc: "batch_outcomes env_mixed ''in'' ''out'' 512 None empty_world
            = [Inr (), Inl (RuntimeError ''cannot read file'')]"
    using example_start_world(3,4) by (rule example_batch_outcomes)
  note T = results_in_discovery_order [OF run, unfolded env_mixed_batch oc]
  note n = T [THEN conjunct1]
  note each = T [THEN conjunct2, THEN conjunct1]
  note printed = T [THEN conjunct2, THEN conjunct2]
  have n': "length results = 2" using n by simp
  have "results ! 0 = result_line ([''in/x/a.obj'', ''in/y/b.obj''] ! 0)
                        ([Inr (), Inl (RuntimeError ''cannot read file'')] ! 0)"
    using each [rule_format, of 0] by simp
  then have r0: "results ! 0 = success_prefix @ ''in/x/a.obj''"
    by (simp add: result_line_def)
  have "results ! 1 = result_line ([''in/x/a.obj'', ''in/y/b.obj''] ! 1)
                        ([Inr (), Inl (RuntimeError ''cannot read file'')] ! 1)"
    using each [rule_format, of 1] by simp
  then have r1: "results ! 1 = failure_prefix @ ''in/y/b.obj'' @ '': '' @ ''cannot read file''"
    by (simp add: result_line_def)
  have body: "batch_render env_mixed ''in'' ''out'' 512 None empty_world = (Inr results, w') \<and>
      length results = 2 \<and>
      results ! 0 = success_prefix @ ''in/x/a.obj'' \<and>
      results ! 1 = failure_prefix @ ''in/y/b.obj'' @ '': '' @ ''cannot read file'' \<and>
      (\<exists>earlier. stdout w' = earlier @ results)"
    using run n' r0 r1 printed by (intro conjI)
  show ?thesis
    by (rule exI [where x = results], rule exI [where x = w'], rule body)
qed


end
